theory Spec2Isabelle
  imports Complex_Main "HOL-Library.Word"
begin

section \<open>JavaScript values used by index.js\<close>

text \<open>
  A JavaScript Number that holds an integer or NaN. The numbers of index.js are byte
  offsets, sizes and the results of \<^verbatim>\<open>parseInt\<close>: integral doubles, or NaN
  when nothing parses. They are represented by unbounded integers, which is exact for
  magnitudes below \<open>2 ^ 53\<close>.
\<close>

datatype jsnum = NaN | Num int

fun js_sub :: "jsnum \<Rightarrow> jsnum \<Rightarrow> jsnum" where
  "js_sub (Num a) (Num b) = Num (a - b)"
| "js_sub _ _ = NaN"

fun js_add :: "jsnum \<Rightarrow> jsnum \<Rightarrow> jsnum" where
  "js_add (Num a) (Num b) = Num (a + b)"
| "js_add _ _ = NaN"

text \<open>\<^verbatim>\<open>a > b\<close> on Numbers: every comparison with NaN is false.\<close>

fun js_gt :: "jsnum \<Rightarrow> jsnum \<Rightarrow> bool" where
  "js_gt (Num a) (Num b) = (a > b)"
| "js_gt _ _ = False"

subsection \<open>Strings\<close>

text \<open>Truthiness of a value that is a string or \<^verbatim>\<open>undefined\<close> (\<open>None\<close>).\<close>

fun truthy :: "string option \<Rightarrow> bool" where
  "truthy None = False"
| "truthy (Some s) = (s \<noteq> [])"

text \<open>\<^verbatim>\<open>xs[i]\<close>: \<^verbatim>\<open>undefined\<close> past the end of the array.\<close>

definition js_index :: "'a list \<Rightarrow> nat \<Rightarrow> 'a option" where
  "js_index xs i = (if i < length xs then Some (xs ! i) else None)"

text \<open>
  \<^verbatim>\<open>s.replace(/pat/, rep)\<close> for a pattern of literal characters without the
  \<^verbatim>\<open>g\<close> flag: the leftmost occurrence is replaced, the rest is kept.
\<close>

fun str_replace :: "string \<Rightarrow> string \<Rightarrow> string \<Rightarrow> string" where
  "str_replace pat rep [] = (if pat = [] then rep else [])"
| "str_replace pat rep (c # cs) =
     (if take (length pat) (c # cs) = pat then rep @ drop (length pat) (c # cs)
      else c # str_replace pat rep cs)"

text \<open>\<^verbatim>\<open>s.split(sep)\<close> for a one-character separator; the result is never empty.\<close>

fun str_split :: "char \<Rightarrow> string \<Rightarrow> string list" where
  "str_split sep [] = [[]]"
| "str_split sep (c # cs) =
     (if c = sep then [] # str_split sep cs
      else (case str_split sep cs of
              [] \<Rightarrow> [[c]]
            | p # ps \<Rightarrow> (c # p) # ps))"

text \<open>\<^verbatim>\<open>parts.join(sep)\<close>.\<close>

fun str_join :: "string \<Rightarrow> string list \<Rightarrow> string" where
  "str_join sep [] = []"
| "str_join sep [s] = s"
| "str_join sep (s # t # ss) = s @ sep @ str_join sep (t # ss)"

subsection \<open>parseInt and Number-to-string\<close>

definition is_digit :: "char \<Rightarrow> bool" where
  "is_digit c = (48 \<le> (of_char c :: nat) \<and> (of_char c :: nat) \<le> 57)"

definition digit_val :: "char \<Rightarrow> int" where
  "digit_val c = int (of_char c) - 48"

text \<open>The white space \<^verbatim>\<open>parseInt\<close> skips, among the characters of a header value.\<close>

definition is_space :: "char \<Rightarrow> bool" where
  "is_space c = ((of_char c :: nat) \<in> {9, 10, 11, 12, 13, 32, 160})"

definition digits_value :: "string \<Rightarrow> int" where
  "digits_value ds = foldl (\<lambda>acc c. 10 * acc + digit_val c) 0 ds"

text \<open>
  \<^verbatim>\<open>parseInt(s, 10)\<close>: leading white space is skipped, one sign is read, then the
  longest run of decimal digits; the rest of the string is ignored. NaN when there is no
  digit.
\<close>

definition parseInt :: "string \<Rightarrow> jsnum" where
  "parseInt s =
     (let t = dropWhile is_space s;
          neg = (case t of c # _ \<Rightarrow> c = CHR ''-'' | [] \<Rightarrow> False);
          u = (case t of c # r \<Rightarrow> if c = CHR ''-'' \<or> c = CHR ''+'' then r else t | [] \<Rightarrow> t);
          ds = takeWhile is_digit u
      in if ds = [] then NaN
         else Num ((if neg then - 1 else 1) * digits_value ds))"

text \<open>\<^verbatim>\<open>parseInt(undefined, 10)\<close> is NaN.\<close>

fun parseInt_arg :: "string option \<Rightarrow> jsnum" where
  "parseInt_arg None = NaN"
| "parseInt_arg (Some s) = parseInt s"

fun show_nat :: "nat \<Rightarrow> string" where
  "show_nat n =
     (if n < 10 then [char_of (48 + n)]
      else show_nat (n div 10) @ [char_of (48 + n mod 10)])"

declare show_nat.simps [simp del]

text \<open>
  Number to string, as a template literal does it: decimal digits for an integer (below
  \<open>10 ^ 21\<close> in magnitude), \<^verbatim>\<open>NaN\<close> for NaN.
\<close>

fun number_to_string :: "jsnum \<Rightarrow> string" where
  "number_to_string NaN = ''NaN''"
| "number_to_string (Num n) =
     (if n < 0 then CHR ''-'' # show_nat (nat (- n)) else show_nat (nat n))"

section \<open>path.join and path.basename (POSIX)\<close>

text \<open>
  One step of \<^verbatim>\<open>normalizeString\<close> on the segments collected so far: empty
  segments and \<^verbatim>\<open>.\<close> are dropped, \<^verbatim>\<open>..\<close> removes the last segment
  unless there is none or it is \<^verbatim>\<open>..\<close> itself; then it is kept for a relative
  path and dropped for an absolute one.
\<close>

definition normalize_step :: "bool \<Rightarrow> string list \<Rightarrow> string \<Rightarrow> string list" where
  "normalize_step allowAboveRoot res seg =
     (if seg = [] \<or> seg = ''.'' then res
      else if seg = ''..'' then
        (if res \<noteq> [] \<and> last res \<noteq> ''..'' then butlast res
         else if allowAboveRoot then res @ [''..'']
         else res)
      else res @ [seg])"

definition normalizeString :: "string \<Rightarrow> bool \<Rightarrow> string" where
  "normalizeString path allowAboveRoot =
     str_join ''/'' (foldl (normalize_step allowAboveRoot) [] (str_split CHR ''/'' path))"

definition isAbsolute :: "string \<Rightarrow> bool" where
  "isAbsolute path = (case path of c # _ \<Rightarrow> c = CHR ''/'' | [] \<Rightarrow> False)"

definition path_normalize :: "string \<Rightarrow> string" where
  "path_normalize path =
     (if path = [] then ''.''
      else
        let trailingSeparator = (last path = CHR ''/'');
            p = normalizeString path (\<not> isAbsolute path)
        in if p = [] then
             (if isAbsolute path then ''/''
              else if trailingSeparator then ''./'' else ''.'')
           else
             (let p' = (if trailingSeparator then p @ ''/'' else p)
              in if isAbsolute path then CHR ''/'' # p' else p'))"

text \<open>\<^verbatim>\<open>path.join(...args)\<close>: the non-empty arguments joined by \<^verbatim>\<open>/\<close>, normalised.\<close>

definition path_join :: "string list \<Rightarrow> string" where
  "path_join args =
     (let joined = filter (\<lambda>a. a \<noteq> []) args
      in if joined = [] then ''.'' else path_normalize (str_join ''/'' joined))"

text \<open>
  A path lies strictly inside a directory when it is the directory's path, a separator and
  something more. Both paths are in the normal form \<^verbatim>\<open>path.join\<close> returns.
\<close>

definition strictly_inside :: "string \<Rightarrow> string \<Rightarrow> bool" where
  "strictly_inside rootDir p =
     (length rootDir + 1 < length p \<and> take (length rootDir + 1) p = rootDir @ ''/'')"

text \<open>
  \<^verbatim>\<open>path.basename(p)\<close>: the last segment of the path, trailing separators ignored.
\<close>

definition basename :: "string \<Rightarrow> string" where
  "basename p =
     (let q = rev (dropWhile (\<lambda>c. c = CHR ''/'') (rev p))
      in rev (takeWhile (\<lambda>c. c \<noteq> CHR ''/'') (rev q)))"

section \<open>The file system\<close>

type_synonym byte = "8 word"

text \<open>
  A regular file: its bytes and its modification time in milliseconds since the epoch
  (\<^verbatim>\<open>stats.mtimeMs\<close>, a Number with a fractional part). The file system maps the
  absolute path of every regular file to the file.
\<close>

record stored_file =
  content :: "byte list"
  mtime :: real

type_synonym filesystem = "(string \<times> stored_file) list"

datatype js_error = ENOENT | EISDIR | ERR_OUT_OF_RANGE

record stats =
  stat_size :: int
  stat_mtimeMs :: real

text \<open>
  The directories are the ancestors of the files: a path is a directory when a file lies
  strictly inside it (a separator at the end of the path is ignored). A path with a
  regular file is not looked up as a directory. A directory with nothing under it is not
  represented.
\<close>

definition is_directory :: "filesystem \<Rightarrow> string \<Rightarrow> bool" where
  "is_directory fs p =
     (\<exists>entry \<in> set fs.
        strictly_inside (rev (dropWhile (\<lambda>c. c = CHR ''/'') (rev p))) (fst entry))"

text \<open>\<^verbatim>\<open>fs.existsSync(p)\<close> is true of a file and of a directory.\<close>

definition existsSync :: "filesystem \<Rightarrow> string \<Rightarrow> bool" where
  "existsSync fs p = (map_of fs p \<noteq> None \<or> is_directory fs p)"

text \<open>
  What \<^verbatim>\<open>stat\<close> reports of a directory depends on the file system; here it is a
  size of 4096 bytes and the time 0.
\<close>

definition directory_stats :: stats where
  "directory_stats = \<lparr>stat_size = 4096, stat_mtimeMs = 0\<rparr>"

text \<open>\<^verbatim>\<open>fs.statSync(p)\<close> throws when the path does not exist.\<close>

definition statSync :: "filesystem \<Rightarrow> string \<Rightarrow> js_error + stats" where
  "statSync fs p =
     (case map_of fs p of
        Some f \<Rightarrow> Inr \<lparr>stat_size = int (length (content f)), stat_mtimeMs = mtime f\<rparr>
      | None \<Rightarrow> if is_directory fs p then Inr directory_stats else Inl ENOENT)"

text \<open>
  \<^verbatim>\<open>validateInteger(value, name, 0)\<close> of \<^verbatim>\<open>fs.createReadStream\<close>: the option
  must be an integer that is not negative. (Node also refuses an integer above
  \<open>2 ^ 53 - 1\<close>; the unbounded integers of this model have no such limit, and no offset
  inside a file reaches it.)
\<close>

fun validateInteger :: "jsnum \<Rightarrow> bool" where
  "validateInteger NaN = False"
| "validateInteger (Num n) = (0 \<le> n)"

text \<open>
  What a read stream delivers once it is drained: the bytes, or the \<^verbatim>\<open>error\<close>
  event of a path that could not be read.
\<close>

datatype stream = Data "byte list" | Failed js_error

text \<open>
  What reading a path gives: the bytes of a file, \<^verbatim>\<open>EISDIR\<close> for a directory,
  \<^verbatim>\<open>ENOENT\<close> when there is nothing.
\<close>

definition read_path :: "filesystem \<Rightarrow> string \<Rightarrow> js_error + byte list" where
  "read_path fs p =
     (case map_of fs p of
        Some f \<Rightarrow> Inr (content f)
      | None \<Rightarrow> if is_directory fs p then Inl EISDIR else Inl ENOENT)"

text \<open>
  \<^verbatim>\<open>fs.createReadStream(path, {start, end})\<close>: both offsets are inclusive and count
  from 0. The options are checked when the stream is made, and a bad one throws
  \<^verbatim>\<open>ERR_OUT_OF_RANGE\<close> at once; the path is opened and read later, and the stream
  ends at the end of the file when \<^verbatim>\<open>end\<close> lies beyond it. Without options the
  whole file is read.
\<close>

definition createReadStream ::
  "filesystem \<Rightarrow> string \<Rightarrow> (jsnum \<times> jsnum) option \<Rightarrow> js_error + stream" where
  "createReadStream fs p opts =
     (case opts of
        None \<Rightarrow>
          (case read_path fs p of
             Inl err \<Rightarrow> Inr (Failed err)
           | Inr bytes \<Rightarrow> Inr (Data bytes))
      | Some (start, end) \<Rightarrow>
          if \<not> validateInteger start then Inl ERR_OUT_OF_RANGE
          else if \<not> validateInteger end then Inl ERR_OUT_OF_RANGE
          else if js_gt start end then Inl ERR_OUT_OF_RANGE
          else
            (case (start, end, read_path fs p) of
               (Num s, Num e, Inr bytes) \<Rightarrow>
                 Inr (Data (take (nat (e - s + 1)) (drop (nat s) bytes)))
             | (_, _, Inl err) \<Rightarrow> Inr (Failed err)
             | _ \<Rightarrow> Inr (Failed ENOENT)))"

section \<open>The /watch/:filename responder\<close>

datatype hvalue = HStr string | HNum jsnum

datatype body = Sent string | Piped "byte list"

record response =
  status :: nat
  headers :: "(string \<times> hvalue) list"
  body :: body

record request =
  param_filename :: string
  range_header :: "string option"

text \<open>
  How a run of the handler ends: a response; an exception thrown before anything was
  written; or headers written and then a stream that fails with no \<^verbatim>\<open>error\<close>
  listener, which ends the process.
\<close>

datatype outcome =
    Responded response
  | Thrown js_error
  | StreamFailed response js_error

fun pipe :: "response \<Rightarrow> stream \<Rightarrow> outcome" where
  "pipe head (Data bs) = Responded (head\<lparr>body := Piped bs\<rparr>)"
| "pipe head (Failed e) = StreamFailed head e"

text \<open>
  The handler of \<^verbatim>\<open>app.get('/watch/:filename', ...)\<close>; \<open>dir\<close> is the value of
  \<^verbatim>\<open>downloadsDir\<close>. It only reads the file system, which is returned as it was. The
  file system does not change while the handler runs.
\<close>

definition watch :: "string \<Rightarrow> filesystem \<Rightarrow> request \<Rightarrow> outcome \<times> filesystem" where
  "watch dir fs req =
     (let filename = param_filename req;
          filePath = path_join [dir, filename]
      in if \<not> existsSync fs filePath then
           (Responded \<lparr>status = 404, headers = [], body = Sent ''Video not found''\<rparr>, fs)
         else
           (case statSync fs filePath of
              Inl e \<Rightarrow> (Thrown e, fs)
            | Inr stat \<Rightarrow>
                let fileSize = Num (stat_size stat);
                    range = range_header req
                in if truthy range then
                     (let parts = str_split CHR ''-'' (str_replace ''bytes='' [] (the range));
                          start = parseInt_arg (js_index parts 0);
                          end = (if truthy (js_index parts 1) then parseInt_arg (js_index parts 1)
                                 else js_sub fileSize (Num 1));
                          chunksize = js_add (js_sub end start) (Num 1)
                      in case createReadStream fs filePath (Some (start, end)) of
                           Inl e \<Rightarrow> (Thrown e, fs)
                         | Inr file_stream \<Rightarrow>
                             (pipe \<lparr>status = 206,
                                    headers =
                                      [(''Content-Range'',
                                          HStr (''bytes '' @ number_to_string start @ ''-'' @
                                                number_to_string end @ ''/'' @
                                                number_to_string fileSize)),
                                       (''Accept-Ranges'', HStr ''bytes''),
                                       (''Content-Length'', HNum chunksize),
                                       (''Content-Type'', HStr ''video/mp4'')],
                                    body = Piped []\<rparr> file_stream, fs))
                   else
                     (case createReadStream fs filePath None of
                        Inl e \<Rightarrow> (Thrown e, fs)
                      | Inr file_stream \<Rightarrow>
                          (pipe \<lparr>status = 200,
                                 headers =
                                   [(''Content-Length'', HNum fileSize),
                                    (''Content-Type'', HStr ''video/mp4'')],
                                 body = Piped []\<rparr> file_stream, fs))))"

text \<open>
  What the client sees, in order. A response is seen with its status; when its body is
  shorter than the \<^verbatim>\<open>Content-Length\<close> it announced, the connection is dropped
  before the announced length is there. Express catches an exception thrown by a route
  handler and its default error handler answers with status 500 (the error of
  \<^verbatim>\<open>createReadStream\<close> carries no status of its own). When a stream fails with no
  listener the process ends and the connection drops with nothing sent.
\<close>

datatype observed = Status nat | ConnectionDrop

fun body_length :: "body \<Rightarrow> int" where
  "body_length (Sent s) = int (length s)"
| "body_length (Piped bytes) = int (length bytes)"

definition body_is_short :: "response \<Rightarrow> bool" where
  "body_is_short r =
     (case map_of (headers r) ''Content-Length'' of
        Some (HNum (Num n)) \<Rightarrow> body_length (body r) < n
      | _ \<Rightarrow> False)"

fun client_sees :: "outcome \<Rightarrow> observed list" where
  "client_sees (Responded r) =
     Status (status r) # (if body_is_short r then [ConnectionDrop] else [])"
| "client_sees (Thrown e) = [Status 500]"
| "client_sees (StreamFailed r e) = [ConnectionDrop]"

text \<open>
  A range header that asks for bytes the file has: \<^verbatim>\<open>bytes=<start>-<end>\<close> with
  decimal numbers, the end possibly left out, and \<open>0 \<le> start \<le> end \<le> fileSize - 1\<close>.
  Every other range header is malformed for the file.
\<close>

definition all_digits :: "string \<Rightarrow> bool" where
  "all_digits s = (s \<noteq> [] \<and> (\<forall>c \<in> set s. is_digit c))"

definition valid_range :: "nat \<Rightarrow> string \<Rightarrow> bool" where
  "valid_range fileSize h =
     (take 6 h = ''bytes='' \<and>
      (case str_split CHR ''-'' (drop 6 h) of
         [x, y] \<Rightarrow>
           all_digits x \<and> (y = [] \<or> all_digits y) \<and>
           digits_value x \<le> (if y = [] then int fileSize - 1 else digits_value y) \<and>
           (if y = [] then int fileSize - 1 else digits_value y) < int fileSize
       | _ \<Rightarrow> False))"

section \<open>File retention: the one-shot deletion and the hourly sweep\<close>

text \<open>
  \<^verbatim>\<open>const downloadsDir = path.join(__dirname, 'downloads')\<close>; \<^verbatim>\<open>__dirname\<close> is
  an absolute path.
\<close>

definition downloadsDir :: "string \<Rightarrow> string" where
  "downloadsDir dirname = path_join [dirname, ''downloads'']"

text \<open>
  The file name \<^verbatim>\<open>downloadVideo\<close> gives a download:
  \<^verbatim>\<open>videoTitle.replace(/[<>:"/\\|?*]/g, '').trim()\<close> and then \<^verbatim>\<open>.mp4\<close>; the
  file is written at \<^verbatim>\<open>path.join(downloadsDir, videoFilename)\<close>.
\<close>

definition invalid_character :: "char \<Rightarrow> bool" where
  "invalid_character c = (c \<in> set [CHR ''<'', CHR ''>'', CHR '':'', CHR 0x22, CHR ''/'',
                                   CHR 0x5C, CHR ''|'', CHR ''?'', CHR ''*''])"

definition trim :: "string \<Rightarrow> string" where
  "trim s = rev (dropWhile is_space (rev (dropWhile is_space s)))"

definition videoFilename :: "string \<Rightarrow> string" where
  "videoFilename videoTitle =
     (let sanitizedTitle = trim (filter (\<lambda>c. \<not> invalid_character c) videoTitle)
      in sanitizedTitle @ ''.mp4'')"

definition downloadVideo_path :: "string \<Rightarrow> string \<Rightarrow> string" where
  "downloadVideo_path dirname videoTitle = path_join [downloadsDir dirname, videoFilename videoTitle]"

text \<open>The state the scheduled jobs act on: the files and the lines written to the console.\<close>

datatype console_line = ConsoleLog string | ConsoleError string js_error

record world =
  files :: filesystem
  console :: "console_line list"

definition console_log :: "string \<Rightarrow> world \<Rightarrow> world" where
  "console_log msg w = w\<lparr>console := console w @ [ConsoleLog msg]\<rparr>"

definition console_error :: "string \<Rightarrow> js_error \<Rightarrow> world \<Rightarrow> world" where
  "console_error msg err w = w\<lparr>console := console w @ [ConsoleError msg err]\<rparr>"

subsection \<open>The asynchronous file operations\<close>

text \<open>
  \<^verbatim>\<open>fs.unlink(path, callback)\<close>: the file is removed; or the callback gets the error
  \<^verbatim>\<open>EISDIR\<close> for a directory, \<^verbatim>\<open>ENOENT\<close> when there is nothing, and nothing
  changes.
\<close>

definition unlink :: "filesystem \<Rightarrow> string \<Rightarrow> js_error option \<times> filesystem" where
  "unlink fs p =
     (if map_of fs p \<noteq> None then (None, filter (\<lambda>entry. fst entry \<noteq> p) fs)
      else if is_directory fs p then (Some EISDIR, fs)
      else (Some ENOENT, fs))"

text \<open>\<^verbatim>\<open>fs.stat(path, callback)\<close>: the error or the stats for the callback.\<close>

definition stat :: "filesystem \<Rightarrow> string \<Rightarrow> js_error + stats" where
  "stat fs p = statSync fs p"

text \<open>A name a directory entry can have.\<close>

definition plain_name :: "string \<Rightarrow> bool" where
  "plain_name n = (n \<noteq> [] \<and> n \<noteq> ''.'' \<and> n \<noteq> ''..'' \<and> CHR ''/'' \<notin> set n)"

definition entry_name :: "string \<Rightarrow> string \<Rightarrow> string option" where
  "entry_name dir p =
     (if take (length dir + 1) p = dir @ ''/'' \<and> plain_name (drop (length dir + 1) p)
      then Some (drop (length dir + 1) p) else None)"

text \<open>
  \<^verbatim>\<open>fs.readdir(dir, callback)\<close>: the names of the files of the directory, each once,
  without \<^verbatim>\<open>.\<close> and \<^verbatim>\<open>..\<close>. The directory is there: index.js makes it when it
  starts. Directories inside it are not listed: index.js makes none in
  \<^verbatim>\<open>downloads\<close>.
\<close>

definition readdir :: "filesystem \<Rightarrow> string \<Rightarrow> js_error + string list" where
  "readdir fs dir = Inr (remdups (List.map_filter (entry_name dir) (map fst fs)))"

subsection \<open>The callbacks of index.js\<close>

text \<open>
  A file operation that index.js has started and whose callback has not run yet:
  \<^item> \<open>ReaddirOp\<close>: \<^verbatim>\<open>fs.readdir(downloadsDir, ...)\<close> of the hourly job;
  \<^item> \<open>StatOp file\<close>: \<^verbatim>\<open>fs.stat(filePath, ...)\<close> of the sweep for the entry \<open>file\<close>;
  \<^item> \<open>SweepUnlinkOp file\<close>: \<^verbatim>\<open>fs.unlink(filePath, ...)\<close> of the sweep;
  \<^item> \<open>OneShotUnlinkOp videoFilePath\<close>: \<^verbatim>\<open>fs.unlink(videoFilePath, ...)\<close> of the job
    that \<^verbatim>\<open>/download\<close> schedules for \<^verbatim>\<open>Date.now() + 24 * 60 * 60 * 1000\<close>.
\<close>

datatype op = ReaddirOp | StatOp string | SweepUnlinkOp string | OneShotUnlinkOp string

text \<open>
  A callback ends with the new state and the operations it started, or (\<open>Inl\<close>) by
  throwing, which nothing would catch.
\<close>

type_synonym callback_result = "js_error + (world \<times> op list)"

definition oneshot_unlink_callback :: "string \<Rightarrow> js_error option \<Rightarrow> world \<Rightarrow> callback_result" where
  "oneshot_unlink_callback videoFilePath err w =
     (case err of
        Some e \<Rightarrow> Inr (console_error (''Error deleting file '' @ basename videoFilePath @ '':'') e w, [])
      | None \<Rightarrow> Inr (console_log (''Deleted file '' @ basename videoFilePath) w, []))"

definition readdir_callback :: "js_error + string list \<Rightarrow> world \<Rightarrow> callback_result" where
  "readdir_callback res w =
     (case res of
        Inl e \<Rightarrow> Inr (console_error ''Error reading downloads directory:'' e w, [])
      | Inr names \<Rightarrow> Inr (w, map StatOp names))"

text \<open>\<open>now\<close> is what \<^verbatim>\<open>Date.now()\<close> returns in this callback, in milliseconds.\<close>

definition stat_callback :: "string \<Rightarrow> int \<Rightarrow> js_error + stats \<Rightarrow> world \<Rightarrow> callback_result" where
  "stat_callback file_name now res w =
     (case res of
        Inl e \<Rightarrow> Inr (console_error (''Error stating file '' @ file_name @ '':'') e w, [])
      | Inr st \<Rightarrow>
          let fileAge = real_of_int now - stat_mtimeMs st
          in if fileAge > 24 * 60 * 60 * 1000 then Inr (w, [SweepUnlinkOp file_name])
             else Inr (w, []))"

definition sweep_unlink_callback :: "string \<Rightarrow> js_error option \<Rightarrow> world \<Rightarrow> callback_result" where
  "sweep_unlink_callback file_name err w =
     (case err of
        Some e \<Rightarrow> Inr (console_error (''Error deleting file '' @ file_name @ '':'') e w, [])
      | None \<Rightarrow> Inr (console_log (''Deleted old file '' @ file_name) w, []))"

subsection \<open>Running the operations\<close>

text \<open>
  One operation takes effect on the files as they are at that moment and its callback
  runs. \<open>dir\<close> is \<^verbatim>\<open>downloadsDir\<close>; \<open>clock file\<close> is the time the stat callback of
  \<open>file\<close> reads.
\<close>

fun exec :: "string \<Rightarrow> (string \<Rightarrow> int) \<Rightarrow> op \<Rightarrow> world \<Rightarrow> callback_result" where
  "exec dir clock ReaddirOp w = readdir_callback (readdir (files w) dir) w"
| "exec dir clock (StatOp file_name) w =
     stat_callback file_name (clock file_name) (stat (files w) (path_join [dir, file_name])) w"
| "exec dir clock (SweepUnlinkOp file_name) w =
     (case unlink (files w) (path_join [dir, file_name]) of
        (err, fs') \<Rightarrow> sweep_unlink_callback file_name err (w\<lparr>files := fs'\<rparr>))"
| "exec dir clock (OneShotUnlinkOp videoFilePath) w =
     (case unlink (files w) videoFilePath of
        (err, fs') \<Rightarrow> oneshot_unlink_callback videoFilePath err (w\<lparr>files := fs'\<rparr>))"

text \<open>
  The operations of a list, one after the other; the operations their callbacks start are
  collected in order. An uncaught exception ends the run.
\<close>

fun run_ops :: "string \<Rightarrow> (string \<Rightarrow> int) \<Rightarrow> op list \<Rightarrow> world \<Rightarrow> callback_result" where
  "run_ops dir clock [] w = Inr (w, [])"
| "run_ops dir clock (x # xs) w =
     (case exec dir clock x w of
        Inl e \<Rightarrow> Inl e
      | Inr (w', started) \<Rightarrow>
          (case run_ops dir clock xs w' of
             Inl e \<Rightarrow> Inl e
           | Inr (w'', started') \<Rightarrow> Inr (w'', started @ started')))"

text \<open>
  One pass of the hourly job, with nothing else running in between: the directory is
  read, then every entry is stat'ed, then the unlinks that the stat callbacks started
  take effect, each in the order it was started.
\<close>

definition sweep_pass :: "string \<Rightarrow> (string \<Rightarrow> int) \<Rightarrow> world \<Rightarrow> js_error + world" where
  "sweep_pass dir clock w =
     (case exec dir clock ReaddirOp w of
        Inl e \<Rightarrow> Inl e
      | Inr (w1, stat_ops) \<Rightarrow>
          (case run_ops dir clock stat_ops w1 of
             Inl e \<Rightarrow> Inl e
           | Inr (w2, unlink_ops) \<Rightarrow>
               (case run_ops dir clock unlink_ops w2 of
                  Inl e \<Rightarrow> Inl e
                | Inr (w3, _) \<Rightarrow> Inr w3)))"

text \<open>The sweep's work on one entry: its stat, then the unlink if the stat callback started one.\<close>

definition sweep_entry :: "string \<Rightarrow> (string \<Rightarrow> int) \<Rightarrow> string \<Rightarrow> world \<Rightarrow> js_error + world" where
  "sweep_entry dir clock file_name w =
     (case exec dir clock (StatOp file_name) w of
        Inl e \<Rightarrow> Inl e
      | Inr (w1, unlink_ops) \<Rightarrow>
          (case run_ops dir clock unlink_ops w1 of
             Inl e \<Rightarrow> Inl e
           | Inr (w2, _) \<Rightarrow> Inr w2))"

text \<open>
  The one-shot job of a download: its unlink and the callback. The directory and the clock
  play no part in this operation.
\<close>

definition oneshot_job :: "string \<Rightarrow> world \<Rightarrow> js_error + world" where
  "oneshot_job videoFilePath w =
     (case exec [] (\<lambda>_. 0) (OneShotUnlinkOp videoFilePath) w of
        Inl e \<Rightarrow> Inl e
      | Inr (w', _) \<Rightarrow> Inr w')"

text \<open>One job after another; the second does not run when the first ended the process.\<close>

definition and_then ::
  "(world \<Rightarrow> js_error + world) \<Rightarrow> (world \<Rightarrow> js_error + world) \<Rightarrow> world \<Rightarrow> js_error + world" where
  "and_then j k w = (case j w of Inl e \<Rightarrow> Inl e | Inr w' \<Rightarrow> k w')"

text \<open>
  The test of the stat callback, for the entry \<open>n\<close> of \<open>dir\<close> on the files \<open>fs\<close>: the
  stat succeeds and \<^verbatim>\<open>now - stats.mtimeMs > 24 * 60 * 60 * 1000\<close>.
\<close>

definition too_old :: "filesystem \<Rightarrow> string \<Rightarrow> (string \<Rightarrow> int) \<Rightarrow> string \<Rightarrow> bool" where
  "too_old fs dir clock n =
     (case stat fs (path_join [dir, n]) of
        Inl e \<Rightarrow> False
      | Inr st \<Rightarrow> real_of_int (clock n) - stat_mtimeMs st > 24 * 60 * 60 * 1000)"

subsection \<open>The schedule\<close>










lemma str_replace_prefix: "pat \<noteq> [] \<Longrightarrow> str_replace pat rep (pat @ r) = rep @ r"
  by (cases pat) auto

lemma str_split_no_sep: "sep \<notin> set s \<Longrightarrow> str_split sep s = [s]"
  by (induction s) auto

lemma str_split_append: "sep \<notin> set s \<Longrightarrow> str_split sep (s @ sep # t) = s # str_split sep t"
  by (induction s) auto

lemma show_nat_digits: "c \<in> set (show_nat n) \<Longrightarrow> is_digit c"
proof (induction n arbitrary: c rule: show_nat.induct)
  case (1 n)
  show ?case
  proof (cases "n < 10")
    case True
    with "1.prems" show ?thesis
      by (simp add: show_nat.simps[of n] is_digit_def)
  next
    case False
    have "n mod 10 < 10" by simp
    then have "is_digit (char_of (48 + n mod 10))"
      unfolding is_digit_def by simp
    with False "1.prems" "1.IH" show ?thesis
      by (auto simp add: show_nat.simps[of n])
  qed
qed

lemma show_nat_nonempty: "show_nat n \<noteq> []"
  by (subst show_nat.simps) simp

lemma digits_value_show_nat: "digits_value (show_nat n) = int n"
proof (induction n rule: show_nat.induct)
  case (1 n)
  show ?case
  proof (cases "n < 10")
    case True
    then show ?thesis
      by (simp add: show_nat.simps[of n] digits_value_def digit_val_def)
  next
    case False
    with "1.IH" have ih: "digits_value (show_nat (n div 10)) = int (n div 10)" by simp
    have "n mod 10 < 10" by simp
    then have d: "digit_val (char_of (48 + n mod 10)) = int (n mod 10)"
      unfolding digit_val_def by simp
    have "digits_value (show_nat n) =
          10 * digits_value (show_nat (n div 10)) + digit_val (char_of (48 + n mod 10))"
      using False by (simp add: show_nat.simps[of n] digits_value_def)
    also have "\<dots> = int n" using ih d by (simp add: zdiv_int zmod_int)
    finally show ?thesis .
  qed
qed

lemma digit_not_space: "is_digit c \<Longrightarrow> \<not> is_space c"
  by (auto simp: is_digit_def is_space_def)

lemma digit_not_sign: "is_digit c \<Longrightarrow> c \<noteq> CHR ''-'' \<and> c \<noteq> CHR ''+''"
  by (auto simp: is_digit_def)

lemma show_nat_no_dash: "CHR ''-'' \<notin> set (show_nat n)"
  using show_nat_digits digit_not_sign by blast

lemma parseInt_show_nat: "parseInt (show_nat n) = Num (int n)"
proof -
  obtain c cs where s: "show_nat n = c # cs"
    using show_nat_nonempty by (cases "show_nat n") auto
  have all: "\<forall>x \<in> set (c # cs). is_digit x"
    using show_nat_digits s by metis
  then have c: "is_digit c" by simp
  have dw: "dropWhile is_space (c # cs) = c # cs"
    using c digit_not_space by simp
  have tw: "takeWhile is_digit (c # cs) = c # cs"
    using all by (simp add: takeWhile_eq_all_conv del: takeWhile.simps)
  have "parseInt (c # cs) = Num (digits_value (c # cs))"
    using c digit_not_sign[of c]
    by (simp add: parseInt_def Let_def dw tw del: takeWhile.simps dropWhile.simps)
  then show ?thesis using s digits_value_show_nat[of n] by simp
qed

lemma parts_closed_range:
  "str_split CHR ''-'' (str_replace ''bytes='' [] (''bytes='' @ show_nat a @ ''-'' @ show_nat b))
     = [show_nat a, show_nat b]"
proof -
  have "str_replace ''bytes='' [] (''bytes='' @ show_nat a @ ''-'' @ show_nat b)
          = show_nat a @ CHR ''-'' # show_nat b"
    using str_replace_prefix[of "''bytes=''" "[]"] by simp
  then show ?thesis
    by (simp add: str_split_append show_nat_no_dash str_split_no_sep)
qed

lemma parts_open_range:
  "str_split CHR ''-'' (str_replace ''bytes='' [] (''bytes='' @ show_nat a @ ''-''))
     = [show_nat a, []]"
proof -
  have "str_replace ''bytes='' [] (''bytes='' @ show_nat a @ ''-'') = show_nat a @ CHR ''-'' # []"
    using str_replace_prefix[of "''bytes=''" "[]"] by simp
  then show ?thesis
    by (simp add: str_split_append show_nat_no_dash)
qed

lemma slice_nth:
  assumes "a \<le> b" and "b < length xs"
  shows "take (nat (int b - int a + 1)) (drop a xs) = map ((!) xs) [a..<Suc b]"
proof -
  have n: "nat (int b - int a + 1) = Suc b - a" using assms by simp
  show ?thesis
    unfolding n using assms by (auto simp: list_eq_iff_nth_eq nth_map_upt simp del: upt_Suc)
qed

subsection \<open>Paths of directory entries\<close>

lemma str_split_nonempty: "str_split sep s \<noteq> []"
  by (induction s) (auto split: list.splits)

lemma str_split_app: "str_split sep (s @ sep # t) = str_split sep s @ str_split sep t"
proof (induction s)
  case Nil
  show ?case by simp
next
  case (Cons c cs)
  obtain p ps where ps: "str_split sep cs = p # ps"
    using str_split_nonempty[of sep cs] by (cases "str_split sep cs") auto
  show ?case using Cons ps by simp
qed

lemma str_split_segments: "x \<in> set (str_split sep s) \<Longrightarrow> sep \<notin> set x"
proof (induction s arbitrary: x)
  case Nil
  then show ?case by simp
next
  case (Cons c cs)
  obtain p ps where ps: "str_split sep cs = p # ps"
    using str_split_nonempty[of sep cs] by (cases "str_split sep cs") auto
  have p: "sep \<notin> set p" and rest: "\<And>y. y \<in> set ps \<Longrightarrow> sep \<notin> set y"
    using Cons.IH ps by auto
  show ?case
  proof (cases "c = sep")
    case True
    with Cons.prems ps p rest show ?thesis by auto
  next
    case False
    with Cons.prems ps p rest show ?thesis by auto
  qed
qed

lemma str_join_snoc: "xs \<noteq> [] \<Longrightarrow> str_join sep (xs @ [y]) = str_join sep xs @ sep @ y"
  by (induction sep xs rule: str_join.induct) auto

lemma str_join_nonempty: "y \<noteq> [] \<Longrightarrow> str_join sep (xs @ [y]) \<noteq> []"
  by (cases "xs = []") (simp_all add: str_join_snoc)

lemma str_split_join:
  "segs \<noteq> [] \<Longrightarrow> \<forall>x \<in> set segs. CHR ''/'' \<notin> set x \<Longrightarrow>
   str_split CHR ''/'' (str_join ''/'' segs) = segs"
proof (induction "''/''" segs rule: str_join.induct)
  case 1
  then show ?case by simp
next
  case (2 s)
  then show ?case by (simp add: str_split_no_sep)
next
  case (3 s t ss)
  then have "str_split CHR ''/'' (str_join ''/'' (t # ss)) = t # ss" by simp
  moreover have "str_split CHR ''/'' s = [s]" using 3 by (simp add: str_split_no_sep)
  ultimately show ?case using str_split_app[of "CHR ''/''" s "str_join ''/'' (t # ss)"] by simp
qed

lemma normalize_step_plain: "plain_name seg \<Longrightarrow> normalize_step b res seg = res @ [seg]"
  by (simp add: normalize_step_def plain_name_def)

lemma foldl_normalize_plain:
  "\<forall>x \<in> set segs. plain_name x \<Longrightarrow> foldl (normalize_step b) res segs = res @ segs"
  by (induction segs arbitrary: res) (simp_all add: normalize_step_plain)

lemma normalize_step_keeps_plain:
  assumes "\<forall>x \<in> set res. plain_name x" and "CHR ''/'' \<notin> set seg"
  shows "\<forall>x \<in> set (normalize_step False res seg). plain_name x"
proof -
  have "set (butlast res) \<subseteq> set res" by (meson in_set_butlastD subsetI)
  then show ?thesis
    using assms by (auto simp: normalize_step_def plain_name_def)
qed

lemma foldl_normalize_keeps_plain:
  "\<forall>x \<in> set res. plain_name x \<Longrightarrow> \<forall>s \<in> set segs. CHR ''/'' \<notin> set s \<Longrightarrow>
   \<forall>x \<in> set (foldl (normalize_step False) res segs). plain_name x"
proof (induction segs arbitrary: res)
  case Nil
  then show ?case by simp
next
  case (Cons s segs)
  have "\<forall>x \<in> set (normalize_step False res s). plain_name x"
    using Cons.prems by (intro normalize_step_keeps_plain) auto
  then show ?case using Cons by simp
qed

text \<open>An absolute path in normal form: \<^verbatim>\<open>/\<close> and then plain segments joined by \<^verbatim>\<open>/\<close>.\<close>

lemma path_join_canonical:
  assumes segs: "segs \<noteq> []" "\<forall>x \<in> set segs. plain_name x" and n: "plain_name n"
  shows "path_join [CHR ''/'' # str_join ''/'' segs, n] = CHR ''/'' # str_join ''/'' segs @ ''/'' @ n"
proof -
  let ?J = "str_join ''/'' segs"
  let ?P = "CHR ''/'' # ?J @ ''/'' @ n"
  have nn: "n \<noteq> []" and ns: "CHR ''/'' \<notin> set n" using n by (auto simp: plain_name_def)
  have noslash: "\<forall>x \<in> set segs. CHR ''/'' \<notin> set x" using segs by (auto simp: plain_name_def)
  have joined: "str_join ''/'' (filter (\<lambda>a. a \<noteq> []) [CHR ''/'' # ?J, n]) = ?P"
    using nn by simp
  have "str_split CHR ''/'' ?P = [] # str_split CHR ''/'' (?J @ CHR ''/'' # n)" by simp
  also have "\<dots> = [] # segs @ [n]"
    using str_split_app[of "CHR ''/''" ?J n] str_split_join[OF segs(1) noslash]
    by (simp add: str_split_no_sep ns)
  finally have split: "str_split CHR ''/'' ?P = [] # segs @ [n]" .
  have "foldl (normalize_step False) [] ([] # segs @ [n]) = foldl (normalize_step False) [] (segs @ [n])"
    by (simp add: normalize_step_def)
  also have "\<dots> = segs @ [n]"
    using segs n by (intro foldl_normalize_plain[of _ _ "[]", simplified]) auto
  finally have ns': "normalizeString ?P False = ?J @ ''/'' @ n"
    unfolding normalizeString_def split using segs(1) by (simp add: str_join_snoc)
  have last: "last ?P \<noteq> CHR ''/''"
    using nn ns by (simp add: last_append) (metis last_in_set)
  have "path_normalize ?P = ?P"
    unfolding path_normalize_def Let_def using ns' last nn by (simp add: isAbsolute_def)
  then show ?thesis
    unfolding path_join_def Let_def joined using nn by simp
qed

lemma downloadsDir_canonical:
  assumes "isAbsolute dirname"
  shows "\<exists>segs. segs \<noteq> [] \<and> (\<forall>x \<in> set segs. plain_name x) \<and>
           downloadsDir dirname = CHR ''/'' # str_join ''/'' segs"
proof -
  obtain r where d: "dirname = CHR ''/'' # r"
    using assms by (cases dirname) (auto simp: isAbsolute_def)
  let ?P = "dirname @ ''/downloads''"
  let ?segs0 = "foldl (normalize_step False) [] (str_split CHR ''/'' dirname)"
  have plain0: "\<forall>x \<in> set ?segs0. plain_name x"
    by (intro foldl_normalize_keeps_plain) (auto dest: str_split_segments)
  have pd: "plain_name ''downloads''" by (simp add: plain_name_def)
  have joined: "str_join ''/'' (filter (\<lambda>a. a \<noteq> []) [dirname, ''downloads'']) = ?P"
    using d by simp
  have "str_split CHR ''/'' ?P = str_split CHR ''/'' dirname @ [''downloads'']"
    using str_split_app[of "CHR ''/''" dirname "''downloads''"] by simp
  then have "foldl (normalize_step False) [] (str_split CHR ''/'' ?P) = ?segs0 @ [''downloads'']"
    by (simp add: normalize_step_plain[OF pd])
  then have ns: "normalizeString ?P False = str_join ''/'' (?segs0 @ [''downloads''])"
    by (simp add: normalizeString_def)
  have ne: "str_join ''/'' (?segs0 @ [''downloads'']) \<noteq> []"
    by (rule str_join_nonempty) simp
  have abs: "isAbsolute ?P" using d by (simp add: isAbsolute_def)
  have "path_normalize ?P = CHR ''/'' # str_join ''/'' (?segs0 @ [''downloads''])"
    unfolding path_normalize_def Let_def using ns ne abs by simp
  then have "downloadsDir dirname = CHR ''/'' # str_join ''/'' (?segs0 @ [''downloads''])"
    unfolding downloadsDir_def path_join_def Let_def joined using d by simp
  moreover have "\<forall>x \<in> set (?segs0 @ [''downloads'']). plain_name x"
    using plain0 pd by auto
  ultimately show ?thesis by blast
qed

lemma path_join_entry:
  assumes "isAbsolute dirname" and "plain_name n"
  shows "path_join [downloadsDir dirname, n] = downloadsDir dirname @ ''/'' @ n"
  using downloadsDir_canonical[OF assms(1)] path_join_canonical[OF _ _ assms(2)] by auto

subsection \<open>The effect of the file operations\<close>

lemma map_of_filter_key:
  "map_of (filter (\<lambda>entry. P (fst entry)) fs) q = (if P q then map_of fs q else None)"
  by (induction fs) auto

lemma map_of_remove_key:
  "map_of (filter (\<lambda>entry. fst entry \<noteq> p) fs) q = (if q = p then None else map_of fs q)"
  by (induction fs) auto

lemma filter_absent_key:
  "map_of fs p = None \<Longrightarrow> filter (\<lambda>entry. fst entry \<noteq> p) fs = fs"
  by (induction fs) (auto split: if_splits)

lemma unlink_files: "snd (unlink fs p) = filter (\<lambda>entry. fst entry \<noteq> p) fs"
  by (simp add: unlink_def filter_absent_key)

lemma unlink_absent: "\<not> existsSync fs p \<Longrightarrow> unlink fs p = (Some ENOENT, fs)"
  by (simp add: unlink_def existsSync_def)

lemma unlink_present:
  "map_of fs p \<noteq> None \<Longrightarrow> unlink fs p = (None, filter (\<lambda>entry. fst entry \<noteq> p) fs)"
  by (simp add: unlink_def)

lemma unlink_error:
  "map_of fs p = None \<Longrightarrow> \<exists>err. unlink fs p = (Some err, fs)"
  by (simp add: unlink_def)

lemma stat_file:
  "map_of fs p = Some f \<Longrightarrow>
   stat fs p = Inr \<lparr>stat_size = int (length (content f)), stat_mtimeMs = mtime f\<rparr>"
  by (simp add: stat_def statSync_def)

lemma stat_absent: "\<not> existsSync fs p \<Longrightarrow> stat fs p = Inl ENOENT"
  by (simp add: stat_def statSync_def existsSync_def)

lemma too_old_file:
  "map_of fs (path_join [dir, n]) = Some f \<Longrightarrow>
   too_old fs dir clock n \<longleftrightarrow> real_of_int (clock n) - mtime f > 24 * 60 * 60 * 1000"
  by (simp add: too_old_def stat_file)

lemma exec_total: "\<exists>w' started. exec dir clock x w = Inr (w', started)"
  by (cases x)
     (auto simp: readdir_callback_def readdir_def stat_callback_def Let_def
        sweep_unlink_callback_def oneshot_unlink_callback_def
        split: sum.splits option.splits prod.splits)

lemma run_ops_total: "\<exists>w' started. run_ops dir clock xs w = Inr (w', started)"
proof (induction xs arbitrary: w)
  case Nil
  show ?case by simp
next
  case (Cons x xs)
  obtain w1 s1 where 1: "exec dir clock x w = Inr (w1, s1)"
    using exec_total by blast
  obtain w2 s2 where 2: "run_ops dir clock xs w1 = Inr (w2, s2)"
    using Cons by blast
  show ?case using 1 2 by simp
qed

lemma exec_stat:
  "\<exists>w'. exec dir clock (StatOp n) w =
          Inr (w', if too_old (files w) dir clock n then [SweepUnlinkOp n] else []) \<and>
        files w' = files w"
  by (auto simp: stat_callback_def too_old_def Let_def console_error_def split: sum.splits)

lemma run_stat_ops:
  "\<exists>w'. run_ops dir clock (map StatOp ns) w =
          Inr (w', map SweepUnlinkOp (filter (too_old (files w) dir clock) ns)) \<and>
        files w' = files w"
proof (induction ns arbitrary: w)
  case Nil
  show ?case by simp
next
  case (Cons n ns)
  obtain w1 where 1: "exec dir clock (StatOp n) w =
        Inr (w1, if too_old (files w) dir clock n then [SweepUnlinkOp n] else [])"
    and f1: "files w1 = files w"
    using exec_stat by blast
  obtain w2 where 2: "run_ops dir clock (map StatOp ns) w1 =
        Inr (w2, map SweepUnlinkOp (filter (too_old (files w1) dir clock) ns))"
    and f2: "files w2 = files w1"
    using Cons by blast
  show ?case using 1 2 f1 f2 by simp
qed

lemma exec_sweep_unlink:
  "\<exists>w'. exec dir clock (SweepUnlinkOp n) w = Inr (w', []) \<and>
        files w' = filter (\<lambda>entry. fst entry \<noteq> path_join [dir, n]) (files w)"
proof (cases "map_of (files w) (path_join [dir, n]) = None")
  case False
  then show ?thesis
    by (simp add: unlink_present sweep_unlink_callback_def console_log_def)
next
  case True
  then obtain err where "unlink (files w) (path_join [dir, n]) = (Some err, files w)"
    using unlink_error by blast
  then show ?thesis
    using True by (simp add: sweep_unlink_callback_def console_error_def filter_absent_key)
qed

lemma run_sweep_unlink_ops:
  "\<exists>w'. run_ops dir clock (map SweepUnlinkOp ns) w = Inr (w', []) \<and>
        files w' = filter (\<lambda>entry. fst entry \<notin> (\<lambda>n. path_join [dir, n]) ` set ns) (files w)"
proof (induction ns arbitrary: w)
  case Nil
  show ?case by simp
next
  case (Cons n ns)
  obtain w1 where 1: "exec dir clock (SweepUnlinkOp n) w = Inr (w1, [])"
    and f1: "files w1 = filter (\<lambda>entry. fst entry \<noteq> path_join [dir, n]) (files w)"
    using exec_sweep_unlink by blast
  obtain w2 where 2: "run_ops dir clock (map SweepUnlinkOp ns) w1 = Inr (w2, [])"
    and f2: "files w2 =
      filter (\<lambda>entry. fst entry \<notin> (\<lambda>n. path_join [dir, n]) ` set ns) (files w1)"
    using Cons by blast
  have "files w2 =
      filter (\<lambda>entry. fst entry \<notin> (\<lambda>n. path_join [dir, n]) ` set (n # ns)) (files w)"
    unfolding f2 f1 by (auto intro: filter_cong)
  then show ?case using 1 2 by simp
qed

text \<open>The files after one pass of the sweep.\<close>

lemma sweep_pass_files:
  "\<exists>w'. sweep_pass dir clock w = Inr w' \<and>
        files w' =
          filter (\<lambda>entry. fst entry \<notin> (\<lambda>n. path_join [dir, n]) `
                    {n \<in> set (remdups (List.map_filter (entry_name dir) (map fst (files w)))).
                       too_old (files w) dir clock n})
            (files w)"
proof -
  let ?ns = "remdups (List.map_filter (entry_name dir) (map fst (files w)))"
  have 1: "exec dir clock ReaddirOp w = Inr (w, map StatOp ?ns)"
    by (simp add: readdir_def readdir_callback_def)
  obtain w2 where 2: "run_ops dir clock (map StatOp ?ns) w =
        Inr (w2, map SweepUnlinkOp (filter (too_old (files w) dir clock) ?ns))"
    and f2: "files w2 = files w"
    using run_stat_ops by blast
  obtain w3 where 3: "run_ops dir clock
        (map SweepUnlinkOp (filter (too_old (files w) dir clock) ?ns)) w2 = Inr (w3, [])"
    and f3: "files w3 = filter (\<lambda>entry. fst entry \<notin> (\<lambda>n. path_join [dir, n]) `
                 set (filter (too_old (files w) dir clock) ?ns)) (files w2)"
    using run_sweep_unlink_ops by blast
  have "sweep_pass dir clock w = Inr w3"
    unfolding sweep_pass_def 1 using 2 3 by simp
  moreover have "set (filter (too_old (files w) dir clock) ?ns) =
      {n \<in> set ?ns. too_old (files w) dir clock n}" by auto
  ultimately show ?thesis using f3 f2 by simp
qed

lemma entry_name_Some:
  "entry_name dir p = Some n \<longleftrightarrow> p = dir @ ''/'' @ n \<and> plain_name n"
proof
  assume "entry_name dir p = Some n"
  then have t: "take (length dir + 1) p = dir @ ''/''" and n: "plain_name n"
    and d: "drop (length dir + 1) p = n"
    by (auto simp: entry_name_def split: if_splits)
  have "p = take (length dir + 1) p @ drop (length dir + 1) p" by simp
  then have "p = dir @ ''/'' @ n" unfolding t d by simp
  then show "p = dir @ ''/'' @ n \<and> plain_name n" using n by simp
next
  assume "p = dir @ ''/'' @ n \<and> plain_name n"
  then show "entry_name dir p = Some n" by (simp add: entry_name_def)
qed

lemma readdir_names:
  "readdir fs dir = Inr ns \<Longrightarrow>
   n \<in> set ns \<longleftrightarrow> plain_name n \<and> map_of fs (dir @ ''/'' @ n) \<noteq> None"
proof -
  assume "readdir fs dir = Inr ns"
  then have ns: "ns = remdups (List.map_filter (entry_name dir) (map fst fs))"
    by (simp add: readdir_def)
  have "n \<in> set ns \<longleftrightarrow> (\<exists>p \<in> fst ` set fs. entry_name dir p = Some n)"
    unfolding ns by (force simp: List.map_filter_def)
  also have "\<dots> \<longleftrightarrow> plain_name n \<and> dir @ ''/'' @ n \<in> fst ` set fs"
    by (auto simp: entry_name_Some)
  also have "\<dots> \<longleftrightarrow> plain_name n \<and> map_of fs (dir @ ''/'' @ n) \<noteq> None"
    by (simp add: map_of_eq_None_iff)
  finally show ?thesis .
qed

section \<open>The responder: range requests, full requests, missing files\<close>

text \<open>
  How the handler runs on an existing file when the range header splits into a decimal
  start and an end that is a decimal number or empty.
\<close>

lemma watch_range_eval:
  assumes f: "map_of fs (path_join [dir, name]) = Some f"
      and parts: "str_split CHR ''-'' (str_replace ''bytes='' [] h) = [show_nat a, e]"
      and e: "e = show_nat b \<or> (e = [] \<and> b = length (content f) - 1)"
      and ab: "a \<le> b" and b: "b < length (content f)"
  shows "watch dir fs \<lparr>param_filename = name, range_header = Some h\<rparr> =
     (Responded
        \<lparr>status = 206,
         headers =
           [(''Content-Range'',
               HStr (''bytes '' @ show_nat a @ ''-'' @ show_nat b @ ''/'' @
                     show_nat (length (content f)))),
            (''Accept-Ranges'', HStr ''bytes''),
            (''Content-Length'', HNum (Num (int b - int a + 1))),
            (''Content-Type'', HStr ''video/mp4'')],
         body = Piped (map ((!) (content f)) [a..<Suc b])\<rparr>,
      fs)"
proof -
  have h: "h \<noteq> []" using parts show_nat_nonempty[of a] by (cases h) auto
  have i0: "\<And>x y. js_index [x, y] 0 = Some (x::string)"
    and i1: "\<And>x y. js_index [x, y] (Suc 0) = Some (y::string)"
    by (simp_all add: js_index_def)
  have crs: "createReadStream fs (path_join [dir, name]) (Some (Num (int a), Num (int b)))
              = Inr (Data (map ((!) (content f)) [a..<Suc b]))"
    using f ab b slice_nth[OF ab b] by (simp add: createReadStream_def read_path_def)
  show ?thesis
  proof (cases "e = []")
    case True
    with e have b': "int (length (content f)) - 1 = int b"
      using b show_nat_nonempty[of b] by auto
    have parts': "str_split CHR ''-'' (str_replace ''bytes='' [] h) = [show_nat a, []]"
      using parts True by simp
    show ?thesis
      unfolding watch_def Let_def
      using f h
      by (simp add: existsSync_def is_directory_def strictly_inside_def statSync_def parts' i0 i1 parseInt_show_nat b' crs
            del: upt_Suc)
  next
    case False
    with e have eb: "e = show_nat b" by simp
    have parts': "str_split CHR ''-'' (str_replace ''bytes='' [] h) = [show_nat a, show_nat b]"
      using parts eb by simp
    show ?thesis
      unfolding watch_def Let_def
      using f h
      by (simp add: existsSync_def is_directory_def strictly_inside_def statSync_def parts' i0 i1 parseInt_show_nat show_nat_nonempty crs
            del: upt_Suc)
  qed
qed

text \<open>
  Claim C1. For a file that exists under the name with size \<open>S\<close>, and a range header
  \<^verbatim>\<open>bytes=a-b\<close> with \<open>0 \<le> a \<le> b \<le> S - 1\<close> written in decimal, the handler answers
  206 with \<^verbatim>\<open>Content-Range: bytes a-b/S\<close>, \<^verbatim>\<open>Accept-Ranges: bytes\<close>,
  \<^verbatim>\<open>Content-Length\<close> \<open>b - a + 1\<close>, \<^verbatim>\<open>Content-Type: video/mp4\<close>, and the body
  is the bytes of the file at the positions \<open>a, \<dots>, b\<close>. With the end left out
  (\<^verbatim>\<open>bytes=a-\<close>) the end is \<open>S - 1\<close>.
\<close>

theorem watch_range_206:
  assumes "map_of fs (path_join [dir, name]) = Some f"
      and "a \<le> b" and "b < length (content f)"
  shows "watch dir fs
           \<lparr>param_filename = name,
            range_header = Some (''bytes='' @ show_nat a @ ''-'' @ show_nat b)\<rparr> =
         (Responded
            \<lparr>status = 206,
             headers =
               [(''Content-Range'',
                   HStr (''bytes '' @ show_nat a @ ''-'' @ show_nat b @ ''/'' @
                         show_nat (length (content f)))),
                (''Accept-Ranges'', HStr ''bytes''),
                (''Content-Length'', HNum (Num (int b - int a + 1))),
                (''Content-Type'', HStr ''video/mp4'')],
             body = Piped (map ((!) (content f)) [a..<Suc b])\<rparr>,
          fs)
       \<and> watch dir fs
           \<lparr>param_filename = name,
            range_header = Some (''bytes='' @ show_nat a @ ''-'')\<rparr> =
         (Responded
            \<lparr>status = 206,
             headers =
               [(''Content-Range'',
                   HStr (''bytes '' @ show_nat a @ ''-'' @ show_nat (length (content f) - 1) @
                         ''/'' @ show_nat (length (content f)))),
                (''Accept-Ranges'', HStr ''bytes''),
                (''Content-Length'', HNum (Num (int (length (content f) - 1) - int a + 1))),
                (''Content-Type'', HStr ''video/mp4'')],
             body = Piped (map ((!) (content f)) [a..<length (content f)])\<rparr>,
          fs)"
proof
  show "watch dir fs
           \<lparr>param_filename = name,
            range_header = Some (''bytes='' @ show_nat a @ ''-'' @ show_nat b)\<rparr> =
         (Responded
            \<lparr>status = 206,
             headers =
               [(''Content-Range'',
                   HStr (''bytes '' @ show_nat a @ ''-'' @ show_nat b @ ''/'' @
                         show_nat (length (content f)))),
                (''Accept-Ranges'', HStr ''bytes''),
                (''Content-Length'', HNum (Num (int b - int a + 1))),
                (''Content-Type'', HStr ''video/mp4'')],
             body = Piped (map ((!) (content f)) [a..<Suc b])\<rparr>,
          fs)"
    using assms by (intro watch_range_eval[OF _ parts_closed_range]) auto
next
  let ?S = "length (content f)"
  have a: "a \<le> ?S - 1" and s: "?S - 1 < ?S" and suc: "Suc (?S - 1) = ?S"
    using assms by auto
  show "watch dir fs
           \<lparr>param_filename = name,
            range_header = Some (''bytes='' @ show_nat a @ ''-'')\<rparr> =
         (Responded
            \<lparr>status = 206,
             headers =
               [(''Content-Range'',
                   HStr (''bytes '' @ show_nat a @ ''-'' @ show_nat (?S - 1) @
                         ''/'' @ show_nat ?S)),
                (''Accept-Ranges'', HStr ''bytes''),
                (''Content-Length'', HNum (Num (int (?S - 1) - int a + 1))),
                (''Content-Type'', HStr ''video/mp4'')],
             body = Piped (map ((!) (content f)) [a..<?S])\<rparr>,
          fs)"
    using watch_range_eval[OF assms(1) parts_open_range _ a s] by (simp only: suc) simp
qed

text \<open>
  Claim C1 on a file of six bytes: \<^verbatim>\<open>bytes=2-4\<close> gives the three bytes at 2, 3 and 4,
  and \<^verbatim>\<open>bytes=2-\<close> the four bytes from 2 to the end.
\<close>

theorem watch_range_206_witness:
  "watch ''/srv/downloads''
     [(''/srv/downloads/clip.mp4'', \<lparr>content = [10, 11, 12, 13, 14, 15], mtime = 0\<rparr>)]
     \<lparr>param_filename = ''clip.mp4'', range_header = Some ''bytes=2-4''\<rparr> =
   (Responded
      \<lparr>status = 206,
       headers =
         [(''Content-Range'', HStr ''bytes 2-4/6''),
          (''Accept-Ranges'', HStr ''bytes''),
          (''Content-Length'', HNum (Num 3)),
          (''Content-Type'', HStr ''video/mp4'')],
       body = Piped [12, 13, 14]\<rparr>,
    [(''/srv/downloads/clip.mp4'', \<lparr>content = [10, 11, 12, 13, 14, 15], mtime = 0\<rparr>)])
   \<and>
   watch ''/srv/downloads''
     [(''/srv/downloads/clip.mp4'', \<lparr>content = [10, 11, 12, 13, 14, 15], mtime = 0\<rparr>)]
     \<lparr>param_filename = ''clip.mp4'', range_header = Some ''bytes=2-''\<rparr> =
   (Responded
      \<lparr>status = 206,
       headers =
         [(''Content-Range'', HStr ''bytes 2-5/6''),
          (''Accept-Ranges'', HStr ''bytes''),
          (''Content-Length'', HNum (Num 4)),
          (''Content-Type'', HStr ''video/mp4'')],
       body = Piped [12, 13, 14, 15]\<rparr>,
    [(''/srv/downloads/clip.mp4'', \<lparr>content = [10, 11, 12, 13, 14, 15], mtime = 0\<rparr>)])"
proof -
  let ?f = "\<lparr>content = [10, 11, 12, 13, 14, 15 :: byte], mtime = 0\<rparr>"
  let ?fs = "[(''/srv/downloads/clip.mp4'', ?f)]"
  have p: "path_join [''/srv/downloads'', ''clip.mp4''] = ''/srv/downloads/clip.mp4''"
    by (simp add: path_join_def path_normalize_def normalizeString_def normalize_step_def
          isAbsolute_def)
  have f: "map_of ?fs (path_join [''/srv/downloads'', ''clip.mp4'']) = Some ?f"
    unfolding p by simp
  have ab: "(2::nat) \<le> 4" by simp
  have b: "4 < length (content ?f)" by simp
  have len: "length (content ?f) = 6" by simp
  have s: "show_nat 2 = ''2''" "show_nat 4 = ''4''" "show_nat 5 = ''5''" "show_nat 6 = ''6''"
    by code_simp+
  have u: "map ((!) (content ?f)) [2..<Suc 4] = [12, 13, 14]"
          "map ((!) (content ?f)) [2..<6] = [12, 13, 14, 15]"
    by (simp_all add: upt_rec)
  show ?thesis
    using watch_range_206[OF f ab b] unfolding len u by (simp add: s)
qed

text \<open>
  Claim C2. For a file that exists under the name with size \<open>S\<close>, a request without a
  range header is answered 200 with \<^verbatim>\<open>Content-Length\<close> \<open>S\<close>,
  \<^verbatim>\<open>Content-Type: video/mp4\<close> and the \<open>S\<close> bytes of the file as the body.
\<close>

theorem watch_no_range_200:
  assumes "map_of fs (path_join [dir, name]) = Some f"
  shows "watch dir fs \<lparr>param_filename = name, range_header = None\<rparr> =
         (Responded
            \<lparr>status = 200,
             headers =
               [(''Content-Length'', HNum (Num (int (length (content f))))),
                (''Content-Type'', HStr ''video/mp4'')],
             body = Piped (content f)\<rparr>,
          fs)"
  using assms
  by (simp add: watch_def Let_def existsSync_def is_directory_def strictly_inside_def statSync_def createReadStream_def read_path_def)

text \<open>Claim C2 on a file of six bytes.\<close>

theorem watch_no_range_200_witness:
  "watch ''/srv/downloads''
     [(''/srv/downloads/clip.mp4'', \<lparr>content = [10, 11, 12, 13, 14, 15], mtime = 0\<rparr>)]
     \<lparr>param_filename = ''clip.mp4'', range_header = None\<rparr> =
   (Responded
      \<lparr>status = 200,
       headers = [(''Content-Length'', HNum (Num 6)), (''Content-Type'', HStr ''video/mp4'')],
       body = Piped [10, 11, 12, 13, 14, 15]\<rparr>,
    [(''/srv/downloads/clip.mp4'', \<lparr>content = [10, 11, 12, 13, 14, 15], mtime = 0\<rparr>)])"
proof -
  let ?f = "\<lparr>content = [10, 11, 12, 13, 14, 15 :: byte], mtime = 0\<rparr>"
  let ?fs = "[(''/srv/downloads/clip.mp4'', ?f)]"
  have p: "path_join [''/srv/downloads'', ''clip.mp4''] = ''/srv/downloads/clip.mp4''"
    by (simp add: path_join_def path_normalize_def normalizeString_def normalize_step_def
          isAbsolute_def)
  have f: "map_of ?fs (path_join [''/srv/downloads'', ''clip.mp4'']) = Some ?f"
    unfolding p by simp
  show ?thesis
    using watch_no_range_200[OF f] by simp
qed

text \<open>
  When the path made from the name does not exist, as a file or as a directory, the handler
  answers 404 with the body \<^verbatim>\<open>Video not found\<close> and the files are as before,
  whatever the range header is.
\<close>

lemma watch_absent_path_404:
  assumes "\<not> existsSync fs (path_join [dir, param_filename req])"
  shows "watch dir fs req =
         (Responded \<lparr>status = 404, headers = [], body = Sent ''Video not found''\<rparr>, fs)"
  using assms by (simp add: watch_def Let_def)

section \<open>The responder: names that leave the directory\<close>

lemma path_join_parent:
  assumes segs: "segs \<noteq> []" "\<forall>s \<in> set segs. plain_name s" and x: "plain_name x"
  shows "path_join [CHR ''/'' # str_join ''/'' segs, ''../'' @ x] =
         CHR ''/'' # str_join ''/'' (butlast segs @ [x])"
proof -
  let ?J = "str_join ''/'' segs"
  let ?P = "CHR ''/'' # ?J @ ''/../'' @ x"
  have xn: "x \<noteq> []" and xs: "CHR ''/'' \<notin> set x" using x by (auto simp: plain_name_def)
  have noslash: "\<forall>s \<in> set segs. CHR ''/'' \<notin> set s" using segs by (auto simp: plain_name_def)
  have joined: "str_join ''/'' (filter (\<lambda>a. a \<noteq> []) [CHR ''/'' # ?J, ''../'' @ x]) = ?P"
    by simp
  have "str_split CHR ''/'' (''..'' @ CHR ''/'' # x) = [''..'', x]"
    using str_split_app[of "CHR ''/''" "''..''" x] by (simp add: str_split_no_sep xs)
  then have "str_split CHR ''/'' (?J @ CHR ''/'' # (''..'' @ CHR ''/'' # x)) = segs @ [''..'', x]"
    using str_split_app[of "CHR ''/''" ?J "''..'' @ CHR ''/'' # x"]
          str_split_join[OF segs(1) noslash] by simp
  then have split: "str_split CHR ''/'' ?P = [] # segs @ [''..'', x]" by simp
  have l: "last segs \<noteq> ''..''" using segs by (auto simp: plain_name_def)
  have "foldl (normalize_step False) [] ([] # segs @ [''..'', x]) =
        normalize_step False (normalize_step False (foldl (normalize_step False) [] segs) ''..'') x"
    by (simp add: normalize_step_def)
  also have "foldl (normalize_step False) [] segs = segs"
    using foldl_normalize_plain[OF segs(2), of False "[]"] by simp
  also have "normalize_step False segs ''..'' = butlast segs"
    using segs(1) l by (simp add: normalize_step_def)
  also have "normalize_step False (butlast segs) x = butlast segs @ [x]"
    using normalize_step_plain[OF x] .
  finally have fl: "foldl (normalize_step False) [] ([] # segs @ [''..'', x]) = butlast segs @ [x]" .
  have ns: "normalizeString ?P False = str_join ''/'' (butlast segs @ [x])"
    unfolding normalizeString_def split fl ..
  have ne: "str_join ''/'' (butlast segs @ [x]) \<noteq> []"
    using xn by (rule str_join_nonempty)
  have last: "last ?P \<noteq> CHR ''/''"
    using xn xs by (simp add: last_append) (metis last_in_set)
  have "path_normalize ?P = CHR ''/'' # str_join ''/'' (butlast segs @ [x])"
    unfolding path_normalize_def Let_def using ns ne last by (simp add: isAbsolute_def)
  then show ?thesis
    unfolding path_join_def Let_def joined by simp
qed

lemma parent_not_inside:
  assumes segs: "segs \<noteq> []" "\<forall>s \<in> set segs. plain_name s" and x: "plain_name x"
  shows "\<not> strictly_inside (CHR ''/'' # str_join ''/'' segs)
            (CHR ''/'' # str_join ''/'' (butlast segs @ [x]))"
proof
  let ?r = "CHR ''/'' # str_join ''/'' segs"
  let ?p = "CHR ''/'' # str_join ''/'' (butlast segs @ [x])"
  assume "strictly_inside ?r ?p"
  then have t: "take (length ?r + 1) ?p = ?r @ ''/''"
    by (simp add: strictly_inside_def)
  have "?p = take (length ?r + 1) ?p @ drop (length ?r + 1) ?p"
    by (simp only: append_take_drop_id)
  then obtain rest where p: "?p = ?r @ ''/'' @ rest" unfolding t by auto
  define pre where "pre = (if butlast segs = [] then [] else str_join ''/'' (butlast segs) @ ''/'')"
  have s: "segs = butlast segs @ [last segs]" using segs(1) by simp
  have "str_join ''/'' segs = pre @ last segs"
    by (subst s) (simp add: pre_def str_join_snoc)
  moreover have "str_join ''/'' (butlast segs @ [x]) = pre @ x"
    by (simp add: pre_def str_join_snoc)
  ultimately have "x = last segs @ ''/'' @ rest" using p by simp
  then have "CHR ''/'' \<in> set x" by (metis append_Cons in_set_conv_decomp)
  with x show False by (simp add: plain_name_def)
qed

text \<open>
  The path that \<^verbatim>\<open>downloadVideo\<close> writes to does lie strictly inside
  \<^verbatim>\<open>downloadsDir\<close>, whatever the title: it is the directory, a separator and a
  plain name, since the separators are taken out of the title before it is joined.
\<close>

lemma videoFilename_plain: "plain_name (videoFilename videoTitle)"
proof -
  let ?t = "filter (\<lambda>c. \<not> invalid_character c) videoTitle"
  have "set (trim ?t) \<subseteq> set ?t"
  proof
    fix c assume "c \<in> set (trim ?t)"
    then have "c \<in> set (dropWhile is_space (rev (dropWhile is_space ?t)))"
      by (simp add: trim_def)
    then have "c \<in> set (rev (dropWhile is_space ?t))" by (rule set_dropWhileD)
    then have "c \<in> set (dropWhile is_space ?t)" by simp
    then show "c \<in> set ?t" by (rule set_dropWhileD)
  qed
  moreover have "CHR ''/'' \<notin> set ?t" by (simp add: invalid_character_def)
  ultimately have "CHR ''/'' \<notin> set (trim ?t)" by blast
  moreover have "length (trim ?t @ ''.mp4'') \<ge> 4" by simp
  then have "trim ?t @ ''.mp4'' \<noteq> ''.''" and "trim ?t @ ''.mp4'' \<noteq> ''..''"
    and "trim ?t @ ''.mp4'' \<noteq> []" by auto
  ultimately show ?thesis
    by (simp add: videoFilename_def plain_name_def)
qed

lemma downloadVideo_path_inside:
  assumes "isAbsolute dirname"
  shows "downloadVideo_path dirname videoTitle =
           downloadsDir dirname @ ''/'' @ videoFilename videoTitle \<and>
         plain_name (videoFilename videoTitle)"
  unfolding downloadVideo_path_def
  using path_join_entry[OF assms videoFilename_plain] videoFilename_plain by simp

text \<open>
  Claim C4 says that the path made from the name always lies strictly inside
  \<^verbatim>\<open>downloadsDir\<close>. It does not: for every absolute \<^verbatim>\<open>__dirname\<close> and every
  plain name \<open>x\<close>, the name \<^verbatim>\<open>../x\<close> is joined to the path of \<open>x\<close> beside
  \<^verbatim>\<open>downloads\<close>, outside of it.
\<close>

theorem watch_path_escapes_root:
  assumes "isAbsolute dirname" and "plain_name x"
  shows "\<not> strictly_inside (downloadsDir dirname) (path_join [downloadsDir dirname, ''../'' @ x])"
proof -
  obtain segs where segs: "segs \<noteq> []" "\<forall>s \<in> set segs. plain_name s"
    and d: "downloadsDir dirname = CHR ''/'' # str_join ''/'' segs"
    using downloadsDir_canonical[OF assms(1)] by blast
  show ?thesis
    unfolding d path_join_parent[OF segs assms(2)] by (rule parent_not_inside[OF segs assms(2)])
qed

text \<open>
  Claim C4 at \<^verbatim>\<open>__dirname = /app\<close> and the name \<^verbatim>\<open>../index.js\<close>: the path is
  \<^verbatim>\<open>/app/index.js\<close>, and the handler serves that file.
\<close>

theorem watch_path_escapes_root_witness:
  "isAbsolute ''/app'' \<and> plain_name ''index.js'' \<and> downloadsDir ''/app'' = ''/app/downloads'' \<and>
   path_join [downloadsDir ''/app'', ''../index.js''] = ''/app/index.js'' \<and>
   \<not> strictly_inside (downloadsDir ''/app'') (path_join [downloadsDir ''/app'', ''../index.js'']) \<and>
   watch (downloadsDir ''/app'')
     [(''/app/index.js'', \<lparr>content = [47, 47, 32], mtime = 0\<rparr>)]
     \<lparr>param_filename = ''../index.js'', range_header = None\<rparr> =
   (Responded
      \<lparr>status = 200,
       headers = [(''Content-Length'', HNum (Num 3)), (''Content-Type'', HStr ''video/mp4'')],
       body = Piped [47, 47, 32]\<rparr>,
    [(''/app/index.js'', \<lparr>content = [47, 47, 32], mtime = 0\<rparr>)])"
proof -
  have a: "isAbsolute ''/app''" by (simp add: isAbsolute_def)
  have x: "plain_name ''index.js''" by (simp add: plain_name_def)
  have d: "downloadsDir ''/app'' = ''/app/downloads''"
    by (simp add: downloadsDir_def path_join_def path_normalize_def normalizeString_def
          normalize_step_def isAbsolute_def)
  have p: "path_join [''/app/downloads'', ''../index.js''] = ''/app/index.js''"
    by (simp add: path_join_def path_normalize_def normalizeString_def normalize_step_def
          isAbsolute_def)
  have w: "watch ''/app/downloads''
     [(''/app/index.js'', \<lparr>content = [47, 47, 32], mtime = 0\<rparr>)]
     \<lparr>param_filename = ''../index.js'', range_header = None\<rparr> =
   (Responded
      \<lparr>status = 200,
       headers = [(''Content-Length'', HNum (Num 3)), (''Content-Type'', HStr ''video/mp4'')],
       body = Piped [47, 47, 32]\<rparr>,
    [(''/app/index.js'', \<lparr>content = [47, 47, 32], mtime = 0\<rparr>)])"
    by (simp add: watch_def Let_def p existsSync_def is_directory_def strictly_inside_def statSync_def createReadStream_def read_path_def)
  show ?thesis
    using watch_path_escapes_root[OF a x] a x w by (simp add: d p)
qed


section \<open>Retention: deleting what is already gone, the two triggers, the age test\<close>

lemma oneshot_job_files:
  "\<exists>w'. oneshot_job p w = Inr w' \<and> files w' = filter (\<lambda>entry. fst entry \<noteq> p) (files w)"
proof (cases "map_of (files w) p = None")
  case False
  then show ?thesis
    by (simp add: oneshot_job_def unlink_present oneshot_unlink_callback_def console_log_def)
next
  case True
  then obtain err where "unlink (files w) p = (Some err, files w)"
    using unlink_error by blast
  then show ?thesis
    using True
    by (simp add: oneshot_job_def oneshot_unlink_callback_def console_error_def filter_absent_key)
qed

lemma sweep_entry_files:
  "\<exists>w'. sweep_entry dir clock n w = Inr w' \<and>
        files w' = (if too_old (files w) dir clock n
                    then filter (\<lambda>entry. fst entry \<noteq> path_join [dir, n]) (files w)
                    else files w)"
proof -
  obtain w1 where 1: "exec dir clock (StatOp n) w =
        Inr (w1, if too_old (files w) dir clock n then [SweepUnlinkOp n] else [])"
    and f1: "files w1 = files w"
    using exec_stat by blast
  show ?thesis
  proof (cases "too_old (files w) dir clock n")
    case True
    obtain w2 where 2: "exec dir clock (SweepUnlinkOp n) w1 = Inr (w2, [])"
      and f2: "files w2 = filter (\<lambda>entry. fst entry \<noteq> path_join [dir, n]) (files w1)"
      using exec_sweep_unlink by blast
    show ?thesis
      unfolding sweep_entry_def using 1 2 f1 f2 True by simp
  next
    case False
    show ?thesis
      unfolding sweep_entry_def using 1 f1 False by simp
  qed
qed

lemma remove_absent:
  "map_of fs p = None \<Longrightarrow>
   (if c then filter (\<lambda>entry. fst entry \<noteq> p) fs else fs) = fs"
  by (simp add: filter_absent_key)

text \<open>
  Claim C5. Deleting a path that is not there (never was, or was deleted before) ends in
  a line on the error console and nothing else: the one-shot job, the unlink of the sweep
  and the stat of the sweep each return normally, with the files as they were and the
  \<^verbatim>\<open>ENOENT\<close> error logged.
\<close>

theorem delete_missing_is_logged:
  assumes "\<not> existsSync (files w) p"
      and "\<not> existsSync (files w) (path_join [dir, n])"
  shows "oneshot_job p w =
           Inr (w\<lparr>console := console w @
                  [ConsoleError (''Error deleting file '' @ basename p @ '':'') ENOENT]\<rparr>)
       \<and> exec dir clock (SweepUnlinkOp n) w =
           Inr (w\<lparr>console := console w @
                  [ConsoleError (''Error deleting file '' @ n @ '':'') ENOENT]\<rparr>, [])
       \<and> sweep_entry dir clock n w =
           Inr (w\<lparr>console := console w @
                  [ConsoleError (''Error stating file '' @ n @ '':'') ENOENT]\<rparr>)"
proof (intro conjI)
  show "oneshot_job p w =
           Inr (w\<lparr>console := console w @
                  [ConsoleError (''Error deleting file '' @ basename p @ '':'') ENOENT]\<rparr>)"
    using assms(1)
    by (simp add: oneshot_job_def unlink_absent oneshot_unlink_callback_def console_error_def)
  show "exec dir clock (SweepUnlinkOp n) w =
           Inr (w\<lparr>console := console w @
                  [ConsoleError (''Error deleting file '' @ n @ '':'') ENOENT]\<rparr>, [])"
    using assms(2)
    by (simp add: unlink_absent sweep_unlink_callback_def console_error_def)
  show "sweep_entry dir clock n w =
           Inr (w\<lparr>console := console w @
                  [ConsoleError (''Error stating file '' @ n @ '':'') ENOENT]\<rparr>)"
    using assms(2)
    by (simp add: sweep_entry_def stat_absent stat_callback_def console_error_def)
qed

text \<open>Claim C5 on an empty directory and the file \<^verbatim>\<open>a.mp4\<close>.\<close>

theorem delete_missing_is_logged_witness:
  "oneshot_job ''/srv/downloads/a.mp4'' \<lparr>files = [], console = []\<rparr> =
     Inr \<lparr>files = [], console = [ConsoleError ''Error deleting file a.mp4:'' ENOENT]\<rparr> \<and>
   exec ''/srv/downloads'' (\<lambda>_. 0) (SweepUnlinkOp ''a.mp4'') \<lparr>files = [], console = []\<rparr> =
     Inr (\<lparr>files = [], console = [ConsoleError ''Error deleting file a.mp4:'' ENOENT]\<rparr>, []) \<and>
   sweep_entry ''/srv/downloads'' (\<lambda>_. 0) ''a.mp4'' \<lparr>files = [], console = []\<rparr> =
     Inr \<lparr>files = [], console = [ConsoleError ''Error stating file a.mp4:'' ENOENT]\<rparr>"
proof -
  let ?w = "\<lparr>files = [], console = []\<rparr>"
  have a: "\<not> existsSync (files ?w) ''/srv/downloads/a.mp4''"
    by (simp add: existsSync_def is_directory_def strictly_inside_def)
  have b: "\<not> existsSync (files ?w) (path_join [''/srv/downloads'', ''a.mp4''])"
    by (simp add: existsSync_def is_directory_def strictly_inside_def)
  have n: "basename ''/srv/downloads/a.mp4'' = ''a.mp4''"
    by (simp add: basename_def)
  show ?thesis
    using delete_missing_is_logged[OF a b, of "\<lambda>_. 0"] by (simp add: n)
qed

text \<open>
  Claim C7. For the file of the entry \<open>n\<close>, the one-shot job before the sweep's work on
  that entry and the sweep's work before the one-shot job both end normally and leave the
  same files: the file is gone and every other path holds what it held. The same is true
  when the one-shot job runs between the sweep's stat and the sweep's unlink.
\<close>

theorem oneshot_and_sweep_commute:
  "\<exists>w1 w2.
     and_then (oneshot_job (path_join [dir, n])) (sweep_entry dir clock n) w = Inr w1 \<and>
     and_then (sweep_entry dir clock n) (oneshot_job (path_join [dir, n])) w = Inr w2 \<and>
     files w1 = files w2 \<and>
     files w1 = filter (\<lambda>entry. fst entry \<noteq> path_join [dir, n]) (files w) \<and>
     map_of (files w1) (path_join [dir, n]) = None \<and>
     (\<forall>q. q \<noteq> path_join [dir, n] \<longrightarrow> map_of (files w1) q = map_of (files w) q) \<and>
     (\<forall>ws started. exec dir clock (StatOp n) w = Inr (ws, started) \<longrightarrow>
        (\<exists>wj w3. oneshot_job (path_join [dir, n]) ws = Inr wj \<and>
                  run_ops dir clock started wj = Inr (w3, []) \<and>
                  files w3 = files w1))"
proof -
  let ?p = "path_join [dir, n]"
  let ?rm = "filter (\<lambda>entry. fst entry \<noteq> ?p)"
  obtain a where a: "oneshot_job ?p w = Inr a" and fa: "files a = ?rm (files w)"
    using oneshot_job_files by blast
  have gone: "map_of (files a) ?p = None"
    unfolding fa by (simp add: map_of_remove_key)
  obtain w1 where w1: "sweep_entry dir clock n a = Inr w1" and f1: "files w1 = files a"
    using sweep_entry_files[of dir clock n a] remove_absent[OF gone] by auto
  obtain b where b: "sweep_entry dir clock n w = Inr b"
    and fb: "files b = (if too_old (files w) dir clock n then ?rm (files w) else files w)"
    using sweep_entry_files by blast
  obtain w2 where w2: "oneshot_job ?p b = Inr w2" and f2: "files w2 = ?rm (files b)"
    using oneshot_job_files by blast
  have f2': "files w2 = ?rm (files w)" unfolding f2 fb by simp
  have first: "and_then (oneshot_job ?p) (sweep_entry dir clock n) w = Inr w1"
    by (simp add: and_then_def a w1)
  have second: "and_then (sweep_entry dir clock n) (oneshot_job ?p) w = Inr w2"
    by (simp add: and_then_def b w2)
  have f1': "files w1 = ?rm (files w)" using f1 fa by simp
  have absent: "map_of (files w1) ?p = None" using gone f1 by simp
  have frame: "\<forall>q. q \<noteq> ?p \<longrightarrow> map_of (files w1) q = map_of (files w) q"
    unfolding f1 fa by (simp add: map_of_remove_key)
  have between: "\<forall>ws started. exec dir clock (StatOp n) w = Inr (ws, started) \<longrightarrow>
        (\<exists>wj w3. oneshot_job ?p ws = Inr wj \<and> run_ops dir clock started wj = Inr (w3, []) \<and>
                  files w3 = files w1)"
  proof (intro allI impI)
    fix ws started
    assume e: "exec dir clock (StatOp n) w = Inr (ws, started)"
    obtain ws' where e': "exec dir clock (StatOp n) w =
          Inr (ws', if too_old (files w) dir clock n then [SweepUnlinkOp n] else [])"
      and fs': "files ws' = files w"
      using exec_stat by blast
    from e e' have st: "started = (if too_old (files w) dir clock n then [SweepUnlinkOp n] else [])"
      and fs: "files ws = files w" using fs' by auto
    obtain wj where wj: "oneshot_job ?p ws = Inr wj" and fj: "files wj = ?rm (files ws)"
      using oneshot_job_files by blast
    obtain w3 where w3: "run_ops dir clock (map SweepUnlinkOp (if too_old (files w) dir clock n then [n] else [])) wj
          = Inr (w3, [])"
      and f3: "files w3 = filter (\<lambda>entry. fst entry \<notin> (\<lambda>n. path_join [dir, n]) `
                 set (if too_old (files w) dir clock n then [n] else [])) (files wj)"
      using run_sweep_unlink_ops by blast
    have "run_ops dir clock started wj = Inr (w3, [])"
      using w3 unfolding st by (simp split: if_splits)
    moreover have "files w3 = files w1"
    proof (cases "too_old (files w) dir clock n")
      case True
      then have "files w3 = ?rm (?rm (files w))" unfolding f3 fj fs by simp
      then show ?thesis unfolding f1' by simp
    next
      case False
      then show ?thesis unfolding f3 fj fs f1' by simp
    qed
    ultimately show "\<exists>wj w3. oneshot_job ?p ws = Inr wj \<and>
        run_ops dir clock started wj = Inr (w3, []) \<and> files w3 = files w1"
      using wj by blast
  qed
  show ?thesis
    using first second f1' f2' absent frame between by (intro exI[of _ w1] exI[of _ w2]) simp
qed

text \<open>Claim C7 on two files a day and an hour old, for the first of them.\<close>

theorem oneshot_and_sweep_commute_witness:
  "(\<exists>w1 w2.
     and_then (oneshot_job ''/srv/downloads/a.mp4'')
       (sweep_entry ''/srv/downloads'' (\<lambda>_. 90000000) ''a.mp4'')
       \<lparr>files = [(''/srv/downloads/a.mp4'', \<lparr>content = [1], mtime = 0\<rparr>),
                 (''/srv/downloads/b.mp4'', \<lparr>content = [2], mtime = 0\<rparr>)],
        console = []\<rparr> = Inr w1 \<and>
     and_then (sweep_entry ''/srv/downloads'' (\<lambda>_. 90000000) ''a.mp4'')
       (oneshot_job ''/srv/downloads/a.mp4'')
       \<lparr>files = [(''/srv/downloads/a.mp4'', \<lparr>content = [1], mtime = 0\<rparr>),
                 (''/srv/downloads/b.mp4'', \<lparr>content = [2], mtime = 0\<rparr>)],
        console = []\<rparr> = Inr w2 \<and>
     files w1 = [(''/srv/downloads/b.mp4'', \<lparr>content = [2], mtime = 0\<rparr>)] \<and>
     files w2 = [(''/srv/downloads/b.mp4'', \<lparr>content = [2], mtime = 0\<rparr>)])"
proof -
  have p: "path_join [''/srv/downloads'', ''a.mp4''] = ''/srv/downloads/a.mp4''"
    by (simp add: path_join_def path_normalize_def normalizeString_def normalize_step_def
          isAbsolute_def)
  show ?thesis
    using oneshot_and_sweep_commute[of "''/srv/downloads''" "''a.mp4''" "\<lambda>_. 90000000"
            "\<lparr>files = [(''/srv/downloads/a.mp4'', \<lparr>content = [1], mtime = 0\<rparr>),
                      (''/srv/downloads/b.mp4'', \<lparr>content = [2], mtime = 0\<rparr>)],
             console = []\<rparr>"]
    unfolding p by auto
qed

text \<open>
  Claim C9. One pass of the sweep removes the file of an entry exactly when the time read
  in its stat callback minus the file's \<^verbatim>\<open>mtimeMs\<close> is more than
  \<^verbatim>\<open>24 * 60 * 60 * 1000\<close>; at exactly 24 hours, or less, the file is still there
  after the pass, unchanged.
\<close>

theorem sweep_pass_deletes_iff_older:
  assumes abs: "isAbsolute dirname" and n: "plain_name n"
      and f: "map_of (files w) (path_join [downloadsDir dirname, n]) = Some f"
  shows "\<exists>w'. sweep_pass (downloadsDir dirname) clock w = Inr w' \<and>
           map_of (files w') (path_join [downloadsDir dirname, n]) =
             (if real_of_int (clock n) - mtime f > 24 * 60 * 60 * 1000 then None else Some f)"
proof -
  let ?D = "downloadsDir dirname"
  let ?ns = "remdups (List.map_filter (entry_name ?D) (map fst (files w)))"
  let ?S = "(\<lambda>n. path_join [?D, n]) ` {n \<in> set ?ns. too_old (files w) ?D clock n}"
  obtain w' where run: "sweep_pass ?D clock w = Inr w'"
    and fw: "files w' = filter (\<lambda>entry. fst entry \<notin> ?S) (files w)"
    using sweep_pass_files by blast
  have rd: "readdir (files w) ?D = Inr ?ns" by (simp add: readdir_def)
  have pn: "path_join [?D, n] = ?D @ ''/'' @ n" using path_join_entry[OF abs n] .
  have listed: "n \<in> set ?ns"
    using readdir_names[OF rd, of n] n f pn by simp
  have old: "too_old (files w) ?D clock n \<longleftrightarrow> real_of_int (clock n) - mtime f > 24 * 60 * 60 * 1000"
    using f by (rule too_old_file)
  have "path_join [?D, n] \<in> ?S \<longleftrightarrow> too_old (files w) ?D clock n"
  proof
    assume "path_join [?D, n] \<in> ?S"
    then obtain m where m: "m \<in> set ?ns" "too_old (files w) ?D clock m"
      and eq: "path_join [?D, n] = path_join [?D, m]" by auto
    have "plain_name m" using readdir_names[OF rd, of m] m(1) by simp
    then have "path_join [?D, m] = ?D @ ''/'' @ m" using path_join_entry[OF abs] by simp
    with eq pn have "m = n" by simp
    with m show "too_old (files w) ?D clock n" by simp
  next
    assume "too_old (files w) ?D clock n"
    with listed show "path_join [?D, n] \<in> ?S" by auto
  qed
  then have mem: "path_join [?D, n] \<notin> ?S \<longleftrightarrow> \<not> too_old (files w) ?D clock n" by blast
  have "map_of (files w') (path_join [?D, n]) =
      (if path_join [?D, n] \<notin> ?S then map_of (files w) (path_join [?D, n]) else None)"
    unfolding fw by (rule map_of_filter_key)
  also have "\<dots> = (if too_old (files w) ?D clock n then None else Some f)"
    unfolding mem f by simp
  finally have "map_of (files w') (path_join [?D, n]) =
      (if too_old (files w) ?D clock n then None else Some f)" .
  with run old show ?thesis by simp
qed

text \<open>
  Claim C9 on a pass at 25 hours: the file written at 0 is removed, the file written at one
  hour (24 hours old to the millisecond) stays.
\<close>

theorem sweep_pass_deletes_iff_older_witness:
  "isAbsolute ''/srv'' \<and> plain_name ''old.mp4'' \<and> plain_name ''edge.mp4'' \<and>
   (\<exists>w'. sweep_pass (downloadsDir ''/srv'') (\<lambda>_. 90000000)
           \<lparr>files = [(''/srv/downloads/old.mp4'', \<lparr>content = [1], mtime = 0\<rparr>),
                     (''/srv/downloads/edge.mp4'', \<lparr>content = [2], mtime = 3600000\<rparr>)],
            console = []\<rparr> = Inr w' \<and>
         map_of (files w') ''/srv/downloads/old.mp4'' = None \<and>
         map_of (files w') ''/srv/downloads/edge.mp4'' = Some \<lparr>content = [2], mtime = 3600000\<rparr>)"
proof -
  let ?w = "\<lparr>files = [(''/srv/downloads/old.mp4'', \<lparr>content = [1 :: byte], mtime = 0\<rparr>),
                     (''/srv/downloads/edge.mp4'', \<lparr>content = [2], mtime = 3600000\<rparr>)],
            console = []\<rparr>"
  have a: "isAbsolute ''/srv''" by (simp add: isAbsolute_def)
  have n1: "plain_name ''old.mp4''" and n2: "plain_name ''edge.mp4''"
    by (simp_all add: plain_name_def)
  have d: "downloadsDir ''/srv'' = ''/srv/downloads''"
    by (simp add: downloadsDir_def path_join_def path_normalize_def normalizeString_def
          normalize_step_def isAbsolute_def)
  have p1: "path_join [''/srv/downloads'', ''old.mp4''] = ''/srv/downloads/old.mp4''"
    and p2: "path_join [''/srv/downloads'', ''edge.mp4''] = ''/srv/downloads/edge.mp4''"
    by (simp_all add: path_join_def path_normalize_def normalizeString_def normalize_step_def
          isAbsolute_def)
  have f1: "map_of (files ?w) (path_join [downloadsDir ''/srv'', ''old.mp4'']) =
              Some \<lparr>content = [1], mtime = 0\<rparr>"
    and f2: "map_of (files ?w) (path_join [downloadsDir ''/srv'', ''edge.mp4'']) =
              Some \<lparr>content = [2], mtime = 3600000\<rparr>"
    by (simp_all add: d p1 p2)
  from sweep_pass_deletes_iff_older[OF a n1 f1, of "\<lambda>_. 90000000"]
  obtain w1 where r1: "sweep_pass (downloadsDir ''/srv'') (\<lambda>_. 90000000) ?w = Inr w1"
    and m1: "map_of (files w1) ''/srv/downloads/old.mp4'' = None"
    by (auto simp: d p1)
  from sweep_pass_deletes_iff_older[OF a n2 f2, of "\<lambda>_. 90000000"]
  obtain w2 where r2: "sweep_pass (downloadsDir ''/srv'') (\<lambda>_. 90000000) ?w = Inr w2"
    and m2: "map_of (files w2) ''/srv/downloads/edge.mp4'' = Some \<lparr>content = [2], mtime = 3600000\<rparr>"
    by (auto simp: d p2)
  have "w1 = w2" using r1 r2 by simp
  with r1 m1 m2 a n1 n2 show ?thesis by blast
qed

text \<open>
  Claim C10. The one-shot job ends normally and removes nothing but the path it was
  given when it was scheduled: the files after it are the files before it without that
  path, and every other path holds what it held.
\<close>

theorem oneshot_removes_only_its_path:
  "\<exists>w'. oneshot_job p w = Inr w' \<and>
        files w' = filter (\<lambda>entry. fst entry \<noteq> p) (files w) \<and>
        (\<forall>q. q \<noteq> p \<longrightarrow> map_of (files w') q = map_of (files w) q)"
proof -
  obtain w' where 1: "oneshot_job p w = Inr w'"
    and 2: "files w' = filter (\<lambda>entry. fst entry \<noteq> p) (files w)"
    using oneshot_job_files by blast
  have "\<forall>q. q \<noteq> p \<longrightarrow> map_of (files w') q = map_of (files w) q"
    unfolding 2 by (simp add: map_of_remove_key)
  with 1 2 show ?thesis by blast
qed

text \<open>Claim C10 on two files: the job of the first leaves the second.\<close>

theorem oneshot_removes_only_its_path_witness:
  "oneshot_job ''/srv/downloads/a.mp4''
     \<lparr>files = [(''/srv/downloads/a.mp4'', \<lparr>content = [1], mtime = 0\<rparr>),
               (''/srv/downloads/b.mp4'', \<lparr>content = [2], mtime = 0\<rparr>)],
      console = []\<rparr> =
   Inr \<lparr>files = [(''/srv/downloads/b.mp4'', \<lparr>content = [2], mtime = 0\<rparr>)],
        console = [ConsoleLog ''Deleted file a.mp4'']\<rparr>"
proof -
  let ?w = "\<lparr>files = [(''/srv/downloads/a.mp4'', \<lparr>content = [1 :: byte], mtime = 0\<rparr>),
               (''/srv/downloads/b.mp4'', \<lparr>content = [2], mtime = 0\<rparr>)],
      console = []\<rparr>"
  have n: "basename ''/srv/downloads/a.mp4'' = ''a.mp4''"
    by (simp add: basename_def)
  obtain w' where 1: "oneshot_job ''/srv/downloads/a.mp4'' ?w = Inr w'"
    and 2: "files w' = filter (\<lambda>entry. fst entry \<noteq> ''/srv/downloads/a.mp4'') (files ?w)"
    using oneshot_removes_only_its_path[of "''/srv/downloads/a.mp4''" ?w] by blast
  have "console w' = [ConsoleLog ''Deleted file a.mp4'']"
    using 1 by (auto simp: oneshot_job_def unlink_def existsSync_def is_directory_def strictly_inside_def oneshot_unlink_callback_def
                  console_log_def n)
  moreover have "files w' = [(''/srv/downloads/b.mp4'', \<lparr>content = [2], mtime = 0\<rparr>)]"
    using 2 by simp
  ultimately have "w' = \<lparr>files = [(''/srv/downloads/b.mp4'', \<lparr>content = [2], mtime = 0\<rparr>)],
        console = [ConsoleLog ''Deleted file a.mp4'']\<rparr>"
    by simp
  with 1 show ?thesis by simp
qed

section \<open>The responder: names that are no file of the directory\<close>

text \<open>
  Claim C3 says that every name that is not the name of a file in \<^verbatim>\<open>downloads\<close> is
  answered 404. With \<^verbatim>\<open>__dirname = /app\<close>, the files \<^verbatim>\<open>/app/index.js\<close> and
  \<^verbatim>\<open>/app/downloads/clip.mp4\<close>, the handler does not do so:
  \<^item> \<^verbatim>\<open>../index.js\<close> is joined to \<^verbatim>\<open>/app/index.js\<close>, which is not inside
    \<^verbatim>\<open>downloads\<close>; it is answered 200 with the bytes of that file, and 206 when a range
    is asked for;
  \<^item> \<^verbatim>\<open>.\<close> is joined to \<^verbatim>\<open>downloads\<close> itself, which \<^verbatim>\<open>fs.existsSync\<close> finds; the
    headers of a 200 are written and the stream then fails with \<^verbatim>\<open>EISDIR\<close>, for which
    there is no listener.
\<close>

theorem watch_not_404_for_names_outside_store:
  "\<not> strictly_inside (downloadsDir ''/app'') (path_join [downloadsDir ''/app'', ''../index.js'']) \<and>
   watch (downloadsDir ''/app'')
     [(''/app/index.js'', \<lparr>content = [47, 47, 32], mtime = 0\<rparr>),
      (''/app/downloads/clip.mp4'', \<lparr>content = [10, 11, 12], mtime = 0\<rparr>)]
     \<lparr>param_filename = ''../index.js'', range_header = None\<rparr> =
   (Responded
      \<lparr>status = 200,
       headers = [(''Content-Length'', HNum (Num 3)), (''Content-Type'', HStr ''video/mp4'')],
       body = Piped [47, 47, 32]\<rparr>,
    [(''/app/index.js'', \<lparr>content = [47, 47, 32], mtime = 0\<rparr>),
     (''/app/downloads/clip.mp4'', \<lparr>content = [10, 11, 12], mtime = 0\<rparr>)]) \<and>
   watch (downloadsDir ''/app'')
     [(''/app/index.js'', \<lparr>content = [47, 47, 32], mtime = 0\<rparr>),
      (''/app/downloads/clip.mp4'', \<lparr>content = [10, 11, 12], mtime = 0\<rparr>)]
     \<lparr>param_filename = ''../index.js'', range_header = Some ''bytes=0-1''\<rparr> =
   (Responded
      \<lparr>status = 206,
       headers =
         [(''Content-Range'', HStr ''bytes 0-1/3''),
          (''Accept-Ranges'', HStr ''bytes''),
          (''Content-Length'', HNum (Num 2)),
          (''Content-Type'', HStr ''video/mp4'')],
       body = Piped [47, 47]\<rparr>,
    [(''/app/index.js'', \<lparr>content = [47, 47, 32], mtime = 0\<rparr>),
     (''/app/downloads/clip.mp4'', \<lparr>content = [10, 11, 12], mtime = 0\<rparr>)]) \<and>
   path_join [downloadsDir ''/app'', ''.''] = downloadsDir ''/app'' \<and>
   (\<exists>head.
      fst (watch (downloadsDir ''/app'')
             [(''/app/index.js'', \<lparr>content = [47, 47, 32], mtime = 0\<rparr>),
              (''/app/downloads/clip.mp4'', \<lparr>content = [10, 11, 12], mtime = 0\<rparr>)]
             \<lparr>param_filename = ''.'', range_header = None\<rparr>) =
      StreamFailed head EISDIR \<and> status head = 200)"
proof -
  let ?fs = "[(''/app/index.js'', \<lparr>content = [47, 47, 32 :: byte], mtime = 0\<rparr>),
              (''/app/downloads/clip.mp4'', \<lparr>content = [10, 11, 12], mtime = 0\<rparr>)]"
  have d: "downloadsDir ''/app'' = ''/app/downloads''"
    by (simp add: downloadsDir_def path_join_def path_normalize_def normalizeString_def
          normalize_step_def isAbsolute_def)
  have p: "path_join [''/app/downloads'', ''../index.js''] = ''/app/index.js''"
    by (simp add: path_join_def path_normalize_def normalizeString_def normalize_step_def
          isAbsolute_def)
  have q: "path_join [''/app/downloads'', ''.''] = ''/app/downloads''"
    by (simp add: path_join_def path_normalize_def normalizeString_def normalize_step_def
          isAbsolute_def)
  have outside: "\<not> strictly_inside ''/app/downloads'' ''/app/index.js''"
    by (simp add: strictly_inside_def)
  have full: "watch ''/app/downloads'' ?fs
     \<lparr>param_filename = ''../index.js'', range_header = None\<rparr> =
   (Responded
      \<lparr>status = 200,
       headers = [(''Content-Length'', HNum (Num 3)), (''Content-Type'', HStr ''video/mp4'')],
       body = Piped [47, 47, 32]\<rparr>, ?fs)"
    by (simp add: watch_def Let_def p existsSync_def statSync_def createReadStream_def
          read_path_def)
  have parts: "str_split CHR ''-'' (str_replace ''bytes='' [] ''bytes=0-1'') = [''0'', ''1'']"
    by simp
  have n: "parseInt ''0'' = Num 0" "parseInt ''1'' = Num 1"
    by (simp_all add: parseInt_def is_space_def is_digit_def digits_value_def digit_val_def)
  have s: "show_nat 0 = ''0''" "show_nat (Suc 0) = ''1''" "show_nat 3 = ''3''"
    by code_simp+
  have crs: "createReadStream ?fs ''/app/index.js'' (Some (Num 0, Num 1)) = Inr (Data [47, 47])"
    by (simp add: createReadStream_def read_path_def)
  have part: "watch ''/app/downloads'' ?fs
     \<lparr>param_filename = ''../index.js'', range_header = Some ''bytes=0-1''\<rparr> =
   (Responded
      \<lparr>status = 206,
       headers =
         [(''Content-Range'', HStr ''bytes 0-1/3''),
          (''Accept-Ranges'', HStr ''bytes''),
          (''Content-Length'', HNum (Num 2)),
          (''Content-Type'', HStr ''video/mp4'')],
       body = Piped [47, 47]\<rparr>, ?fs)"
    unfolding watch_def Let_def
    by (simp add: p existsSync_def statSync_def parts js_index_def n crs s)
  have isdir: "is_directory ?fs ''/app/downloads''"
    by (simp add: is_directory_def strictly_inside_def)
  have dot: "fst (watch ''/app/downloads'' ?fs \<lparr>param_filename = ''.'', range_header = None\<rparr>) =
      StreamFailed
        \<lparr>status = 200,
         headers = [(''Content-Length'', HNum (Num 4096)), (''Content-Type'', HStr ''video/mp4'')],
         body = Piped []\<rparr> EISDIR"
    unfolding watch_def Let_def
    by (simp add: q existsSync_def statSync_def isdir directory_stats_def createReadStream_def
          read_path_def)
  have "\<exists>head. fst (watch ''/app/downloads'' ?fs \<lparr>param_filename = ''.'', range_header = None\<rparr>) =
      StreamFailed head EISDIR \<and> status head = 200"
    unfolding dot by simp
  then show ?thesis
    unfolding d using outside full part q by (simp add: p)
qed

section \<open>The responder: range headers that do not parse\<close>

lemma createReadStream_range_cases:
  assumes "map_of fs p = Some f"
  shows "createReadStream fs p (Some (s, e)) = Inl ERR_OUT_OF_RANGE \<or>
         (\<exists>bs. createReadStream fs p (Some (s, e)) = Inr (Data bs))"
  using assms by (cases s; cases e) (auto simp: createReadStream_def read_path_def)

lemma createReadStream_NaN_start:
  "createReadStream fs p (Some (NaN, e)) = Inl ERR_OUT_OF_RANGE"
  by (simp add: createReadStream_def)

text \<open>
  How the handler ends on an existing file and a range header that is not empty: with the
  exception of \<^verbatim>\<open>fs.createReadStream\<close>, thrown before anything is written, or with a
  206 response.
\<close>

lemma watch_range_outcome:
  assumes f: "map_of fs (path_join [dir, param_filename req]) = Some f"
      and h: "range_header req = Some h" "h \<noteq> []"
  shows "fst (watch dir fs req) = Thrown ERR_OUT_OF_RANGE \<or>
         (\<exists>r. fst (watch dir fs req) = Responded r \<and> status r = 206)"
    and "parseInt_arg (js_index (str_split CHR ''-'' (str_replace ''bytes='' [] h)) 0) = NaN \<Longrightarrow>
         fst (watch dir fs req) = Thrown ERR_OUT_OF_RANGE"
proof -
  let ?p = "path_join [dir, param_filename req]"
  define parts where "parts = str_split CHR ''-'' (str_replace ''bytes='' [] h)"
  define start where "start = parseInt_arg (js_index parts 0)"
  define endv where "endv = (if truthy (js_index parts 1) then parseInt_arg (js_index parts 1)
                              else js_sub (Num (int (length (content f)))) (Num 1))"
  have w: "watch dir fs req =
    (case createReadStream fs ?p (Some (start, endv)) of
       Inl e \<Rightarrow> (Thrown e, fs)
     | Inr file_stream \<Rightarrow>
         (pipe \<lparr>status = 206,
               headers =
                 [(''Content-Range'',
                     HStr (''bytes '' @ number_to_string start @ ''-'' @
                           number_to_string endv @ ''/'' @
                           number_to_string (Num (int (length (content f)))))),
                  (''Accept-Ranges'', HStr ''bytes''),
                  (''Content-Length'', HNum (js_add (js_sub endv start) (Num 1))),
                  (''Content-Type'', HStr ''video/mp4'')],
               body = Piped []\<rparr> file_stream, fs))"
    using f h
    by (simp add: watch_def Let_def existsSync_def statSync_def parts_def start_def endv_def
          del: One_nat_def split del: if_split cong del: sum.case_cong_weak if_weak_cong)
  show "parseInt_arg (js_index (str_split CHR ''-'' (str_replace ''bytes='' [] h)) 0) = NaN \<Longrightarrow>
        fst (watch dir fs req) = Thrown ERR_OUT_OF_RANGE"
    unfolding w by (simp add: start_def parts_def createReadStream_NaN_start)
  from createReadStream_range_cases[OF f, of start endv]
  show "fst (watch dir fs req) = Thrown ERR_OUT_OF_RANGE \<or>
        (\<exists>r. fst (watch dir fs req) = Responded r \<and> status r = 206)"
  proof
    assume "createReadStream fs ?p (Some (start, endv)) = Inl ERR_OUT_OF_RANGE"
    then show ?thesis unfolding w by simp
  next
    assume "\<exists>bs. createReadStream fs ?p (Some (start, endv)) = Inr (Data bs)"
    then obtain bs where "createReadStream fs ?p (Some (start, endv)) = Inr (Data bs)" by blast
    then show ?thesis unfolding w by simp
  qed
qed

lemma watch_empty_range_outcome:
  assumes f: "map_of fs (path_join [dir, param_filename req]) = Some f"
      and h: "\<not> truthy (range_header req)"
  shows "\<exists>r. fst (watch dir fs req) = Responded r \<and> status r = 200"
  using f h
  by (simp add: watch_def Let_def existsSync_def statSync_def createReadStream_def read_path_def)

text \<open>
  Claim C8 says that on an existing file and a malformed range header the client sees
  nothing but 404, 200 or 206, or a dropped connection. For \<^verbatim>\<open>bytes=-500\<close> the start
  is NaN, \<^verbatim>\<open>fs.createReadStream\<close> throws, and the client sees 500.
\<close>

theorem malformed_range_observed_500_counterexample:
  "map_of [(''/srv/downloads/clip.mp4'', \<lparr>content = [10, 11, 12, 13, 14, 15], mtime = 0\<rparr>)]
     (path_join [''/srv/downloads'', ''clip.mp4'']) =
     Some \<lparr>content = [10, 11, 12, 13, 14, 15], mtime = 0\<rparr> \<and>
   \<not> valid_range 6 ''bytes=-500'' \<and>
   fst (watch ''/srv/downloads''
          [(''/srv/downloads/clip.mp4'', \<lparr>content = [10, 11, 12, 13, 14, 15], mtime = 0\<rparr>)]
          \<lparr>param_filename = ''clip.mp4'', range_header = Some ''bytes=-500''\<rparr>)
     = Thrown ERR_OUT_OF_RANGE \<and>
   client_sees (fst (watch ''/srv/downloads''
          [(''/srv/downloads/clip.mp4'', \<lparr>content = [10, 11, 12, 13, 14, 15], mtime = 0\<rparr>)]
          \<lparr>param_filename = ''clip.mp4'', range_header = Some ''bytes=-500''\<rparr>))
     = [Status 500] \<and>
   \<not> set (client_sees (fst (watch ''/srv/downloads''
          [(''/srv/downloads/clip.mp4'', \<lparr>content = [10, 11, 12, 13, 14, 15], mtime = 0\<rparr>)]
          \<lparr>param_filename = ''clip.mp4'', range_header = Some ''bytes=-500''\<rparr>)))
       \<subseteq> {Status 404, Status 200, Status 206, ConnectionDrop}"
proof -
  have p: "path_join [''/srv/downloads'', ''clip.mp4''] = ''/srv/downloads/clip.mp4''"
    by (simp add: path_join_def path_normalize_def normalizeString_def normalize_step_def
          isAbsolute_def)
  have parts: "str_split CHR ''-'' (str_replace ''bytes='' [] ''bytes=-500'') = [[], ''500'']"
    by simp
  have start: "parseInt [] = NaN" by (simp add: parseInt_def)
  have v: "\<not> valid_range 6 ''bytes=-500''"
    by (simp add: valid_range_def all_digits_def)
  have w: "fst (watch ''/srv/downloads''
          [(''/srv/downloads/clip.mp4'', \<lparr>content = [10, 11, 12, 13, 14, 15], mtime = 0\<rparr>)]
          \<lparr>param_filename = ''clip.mp4'', range_header = Some ''bytes=-500''\<rparr>)
     = Thrown ERR_OUT_OF_RANGE"
    unfolding watch_def Let_def
    by (simp add: p existsSync_def statSync_def parts js_index_def start createReadStream_NaN_start)
  show ?thesis using w p v by simp
qed

text \<open>
  Claim C8, amended. On an existing file and a malformed range header the handler ends
  with a response of its own or with an exception that Express answers, never with a failed
  stream that would end the process; and the client sees nothing but 404, 200, 206 or 500,
  or a dropped connection.
\<close>

theorem malformed_range_outcomes:
  assumes "map_of fs (path_join [dir, param_filename req]) = Some f"
      and "range_header req = Some h"
      and "\<not> valid_range (length (content f)) h"
  shows "((\<exists>r. fst (watch dir fs req) = Responded r \<and> (status r = 200 \<or> status r = 206)) \<or>
          fst (watch dir fs req) = Thrown ERR_OUT_OF_RANGE) \<and>
         set (client_sees (fst (watch dir fs req))) \<subseteq>
           {Status 404, Status 200, Status 206, Status 500, ConnectionDrop}"
proof (cases "h = []")
  case True
  then have "\<not> truthy (range_header req)" using assms(2) by simp
  from watch_empty_range_outcome[OF assms(1) this]
  obtain r where "fst (watch dir fs req) = Responded r" "status r = 200" by blast
  then show ?thesis by auto
next
  case False
  from watch_range_outcome(1)[OF assms(1,2) False]
  show ?thesis
  proof
    assume "fst (watch dir fs req) = Thrown ERR_OUT_OF_RANGE"
    then show ?thesis by simp
  next
    assume "\<exists>r. fst (watch dir fs req) = Responded r \<and> status r = 206"
    then obtain r where "fst (watch dir fs req) = Responded r" "status r = 206" by blast
    then show ?thesis by auto
  qed
qed

text \<open>
  Claim C8, amended, on a file of three bytes: \<^verbatim>\<open>bytes=abc-\<close> is answered 500, and
  \<^verbatim>\<open>bytes=1-100\<close> is answered 206 with a body shorter than announced, so that the
  connection drops.
\<close>

theorem malformed_range_outcomes_witness:
  "\<not> valid_range 3 ''bytes=abc-'' \<and> \<not> valid_range 3 ''bytes=1-100'' \<and>
   client_sees (fst (watch ''/srv/downloads''
     [(''/srv/downloads/clip.mp4'', \<lparr>content = [10, 11, 12], mtime = 0\<rparr>)]
     \<lparr>param_filename = ''clip.mp4'', range_header = Some ''bytes=abc-''\<rparr>)) = [Status 500] \<and>
   client_sees (fst (watch ''/srv/downloads''
     [(''/srv/downloads/clip.mp4'', \<lparr>content = [10, 11, 12], mtime = 0\<rparr>)]
     \<lparr>param_filename = ''clip.mp4'', range_header = Some ''bytes=1-100''\<rparr>)) =
     [Status 206, ConnectionDrop] \<and>
   set (client_sees (fst (watch ''/srv/downloads''
     [(''/srv/downloads/clip.mp4'', \<lparr>content = [10, 11, 12], mtime = 0\<rparr>)]
     \<lparr>param_filename = ''clip.mp4'', range_header = Some ''bytes=abc-''\<rparr>))) \<subseteq>
     {Status 404, Status 200, Status 206, Status 500, ConnectionDrop}"
proof -
  let ?f = "\<lparr>content = [10, 11, 12 :: byte], mtime = 0\<rparr>"
  let ?fs = "[(''/srv/downloads/clip.mp4'', ?f)]"
  let ?req = "\<lparr>param_filename = ''clip.mp4'', range_header = Some ''bytes=abc-''\<rparr>"
  have p: "path_join [''/srv/downloads'', ''clip.mp4''] = ''/srv/downloads/clip.mp4''"
    by (simp add: path_join_def path_normalize_def normalizeString_def normalize_step_def
          isAbsolute_def)
  have f: "map_of ?fs (path_join [''/srv/downloads'', param_filename ?req]) = Some ?f"
    by (simp add: p)
  have h: "range_header ?req = Some ''bytes=abc-''" by simp
  have v3: "\<not> valid_range 3 ''bytes=abc-''"
    by (simp add: valid_range_def all_digits_def is_digit_def)
  have len: "length (content ?f) = 3" by simp
  have v: "\<not> valid_range (length (content ?f)) ''bytes=abc-''"
    unfolding len by (rule v3)
  have v2: "\<not> valid_range 3 ''bytes=1-100''"
    by (simp add: valid_range_def all_digits_def is_digit_def digits_value_def digit_val_def)
  have parts: "str_split CHR ''-'' (str_replace ''bytes='' [] ''bytes=abc-'') = [''abc'', []]"
    by simp
  have start: "parseInt ''abc'' = NaN"
    by (simp add: parseInt_def is_space_def is_digit_def)
  have t: "fst (watch ''/srv/downloads'' ?fs ?req) = Thrown ERR_OUT_OF_RANGE"
    using watch_range_outcome(2)[OF f h] by (simp add: parts js_index_def start)
  have parts2: "str_split CHR ''-'' (str_replace ''bytes='' [] ''bytes=1-100'') = [''1'', ''100'']"
    by simp
  have n: "parseInt ''1'' = Num 1" "parseInt ''100'' = Num 100"
    by (simp_all add: parseInt_def is_space_def is_digit_def digits_value_def digit_val_def)
  have s: "show_nat (Suc 0) = ''1''" "show_nat 100 = ''100''" "show_nat 3 = ''3''"
    by code_simp+
  have crs: "createReadStream ?fs ''/srv/downloads/clip.mp4'' (Some (Num 1, Num 100)) =
      Inr (Data [11, 12])"
    by (simp add: createReadStream_def read_path_def)
  have short: "client_sees (fst (watch ''/srv/downloads'' ?fs
      \<lparr>param_filename = ''clip.mp4'', range_header = Some ''bytes=1-100''\<rparr>)) =
      [Status 206, ConnectionDrop]"
    unfolding watch_def Let_def
    by (simp add: p existsSync_def statSync_def parts2 js_index_def n crs s body_is_short_def)
  show ?thesis
    using malformed_range_outcomes[OF f h v] t short v3 v2 by simp
qed

section \<open>Retention: the backstop of the hourly sweep\<close>









end
